theory Spec2Isabelle
  imports Complex_Main "HOL-Library.Multiset" "HOL-Library.Log_Nat"
begin

section \<open>TaskBuddy: the gamification core\<close>

text \<open>
  A shallow embedding of the gamification code of TaskBuddy: the points ledger trigger
  (\<^verbatim>\<open>validate_points_balance\<close>), the level system, the streak calculator, the
  bonus calculator, the leaderboard service and the achievement engine.

  Conventions of the model.
  \<^item> A UUID or any other identifier is a \<open>string\<close>.
  \<^item> A JavaScript \<^verbatim>\<open>Date\<close> is its time value, an \<open>int\<close> of milliseconds since
    1970-01-01T00:00:00Z; the range limit of \<^verbatim>\<open>Date\<close> is not modelled. The time zone of
    the process, which the local-time methods of \<^verbatim>\<open>Date\<close> read, is a parameter.
  \<^item> A JavaScript \<^verbatim>\<open>number\<close> that holds an integer (a count, an amount of points, a
    level, a day of a streak) is an \<open>int\<close>: the integers up to \<open>2\<^sup>5\<^sup>3\<close> are doubles, and
    their sums and differences are exact.
  \<^item> Arithmetic that leaves the integers (the streak multiplier, the percentages of the
    bonuses, the progress within a level) is IEEE 754 binary64 arithmetic: the result of
    an operation is the exact result rounded to the nearest double, ties to even
    (\<open>binary64\<close> below). Overflow and subnormal numbers, out of reach of these
    computations, are not modelled.
  \<^item> \<^verbatim>\<open>Math.pow\<close> is the real power, and the weights of the leaderboard are reals with
    exact arithmetic (the default weights are integers, so that nothing is rounded).
  \<^item> A database table is the list of its rows in insertion order.
\<close>

type_synonym uuid = string
type_synonym timestamp = int

subsection \<open>JavaScript arithmetic\<close>

text \<open>\<^verbatim>\<open>Math.round\<close> rounds to the nearest integer, a half towards plus infinity.\<close>

definition Math_round :: "real \<Rightarrow> int" where
  "Math_round x = \<lfloor>x + 1 / 2\<rfloor>"

definition Math_floor :: "real \<Rightarrow> int" where
  "Math_floor x = \<lfloor>x\<rfloor>"

text \<open>
  Doubles. A double other than zero is \<open>m * 2\<^sup>e\<close> with an integer \<open>m\<close> of 53 binary
  digits, \<open>2\<^sup>5\<^sup>2 \<le> \<bar>m\<bar> < 2\<^sup>5\<^sup>3\<close>. To round a real \<open>x\<close>, take the binade of \<open>\<bar>x\<bar>\<close>, the
  \<open>k\<close> with \<open>2\<^sup>k \<le> \<bar>x\<bar> < 2\<^sup>k\<^sup>+\<^sup>1\<close>, scale \<open>x\<close> by \<open>2\<^sup>5\<^sup>2\<^sup>-\<^sup>k\<close>, round the scaled value to the
  nearest integer, a tie to the even one, and scale back.
\<close>

definition round_half_even :: "real \<Rightarrow> int" where
  "round_half_even x =
     (let n = \<lfloor>x\<rfloor>; r = x - of_int n
      in if r < 1 / 2 then n else if 1 / 2 < r then n + 1 else if even n then n else n + 1)"

text \<open>
  For \<open>x \<ge> 1\<close> the binade is one less than the number of binary digits of \<open>\<lfloor>x\<rfloor>\<close>; for
  \<open>0 < x < 1\<close> it is \<open>- k\<close> for the least \<open>k\<close> with \<open>1 / x \<le> 2\<^sup>k\<close>.
\<close>

definition binade :: "real \<Rightarrow> int" where
  "binade x = (if 1 \<le> x then bitlen \<lfloor>x\<rfloor> - 1 else - bitlen (\<lceil>1 / x\<rceil> - 1))"

definition binary64 :: "real \<Rightarrow> real" where
  "binary64 x =
     (if x = 0 then 0
      else let e = binade \<bar>x\<bar> - 52
           in of_int (round_half_even (x / 2 powi e)) * 2 powi e)"

text \<open>The operators \<^verbatim>\<open>+\<close>, \<^verbatim>\<open>-\<close>, \<^verbatim>\<open>*\<close> and \<^verbatim>\<open>/\<close> on doubles.\<close>

definition add64 :: "real \<Rightarrow> real \<Rightarrow> real" where
  "add64 x y = binary64 (x + y)"

definition sub64 :: "real \<Rightarrow> real \<Rightarrow> real" where
  "sub64 x y = binary64 (x - y)"

definition mul64 :: "real \<Rightarrow> real \<Rightarrow> real" where
  "mul64 x y = binary64 (x * y)"

definition div64 :: "real \<Rightarrow> real \<Rightarrow> real" where
  "div64 x y = binary64 (x / y)"

subsection \<open>The points ledger and its balance trigger\<close>

datatype transaction_type = earned | redeemed | bonus | penalty | adjustment

record points_ledger_row =
  pl_child_id :: uuid
  pl_transaction_type :: transaction_type
  points_amount :: int
  balance_after :: int
  pl_reference_type :: string
  pl_created_at :: timestamp

datatype sql_error = Points_balance_mismatch

text \<open>
  \<^verbatim>\<open>SELECT COALESCE(SUM(points_amount), 0) FROM points_ledger WHERE child_id = NEW.child_id\<close>.
  The trigger runs \<^verbatim>\<open>BEFORE INSERT\<close>, so the table it reads does not hold the new row.
\<close>

definition calculated_balance :: "points_ledger_row list \<Rightarrow> uuid \<Rightarrow> int" where
  "calculated_balance points_ledger cid =
     sum_list (map points_amount (filter (\<lambda>r. pl_child_id r = cid) points_ledger))"

definition validate_points_balance ::
  "points_ledger_row list \<Rightarrow> points_ledger_row \<Rightarrow> sql_error + points_ledger_row" where
  "validate_points_balance points_ledger NEW =
     (if balance_after NEW \<noteq> calculated_balance points_ledger (pl_child_id NEW)
      then Inl Points_balance_mismatch
      else Inr NEW)"

text \<open>
  \<^verbatim>\<open>INSERT INTO points_ledger\<close> with the trigger \<^verbatim>\<open>check_points_balance\<close>: the row
  the trigger returns is appended; an exception aborts the statement and the table stays
  as it was.
\<close>

definition insert_points_ledger ::
  "points_ledger_row list \<Rightarrow> points_ledger_row \<Rightarrow> sql_error + points_ledger_row list" where
  "insert_points_ledger points_ledger NEW =
     (case validate_points_balance points_ledger NEW of
        Inl e \<Rightarrow> Inl e
      | Inr row \<Rightarrow> Inr (points_ledger @ [row]))"

subsection \<open>Level progression (lib/gamification/levelSystem.ts)\<close>

text \<open>
  A level is an \<open>int\<close>. \<^verbatim>\<open>Math.pow(level, 1.5)\<close> is the real power: the result of
  \<^verbatim>\<open>Math.floor\<close> is the same for doubles as long as the product is not within rounding
  error of an integer.
\<close>

definition BASE_XP :: real where "BASE_XP = 100"
definition GROWTH_FACTOR :: real where "GROWTH_FACTOR = 1.5"
definition MAX_LEVEL :: int where "MAX_LEVEL = 100"

definition xpRequiredForLevel :: "int \<Rightarrow> int" where
  "xpRequiredForLevel lvl =
     (if lvl \<le> 0 then 0 else Math_floor (BASE_XP * (real_of_int lvl) powr GROWTH_FACTOR))"

text \<open>The loop \<^verbatim>\<open>for (let i = 1; i <= level; i++) total += xpRequiredForLevel(i)\<close>.\<close>

function cumulativeXp_loop :: "int \<Rightarrow> int \<Rightarrow> int \<Rightarrow> int" where
  "cumulativeXp_loop i lvl tot =
     (if i \<le> lvl then cumulativeXp_loop (i + 1) lvl (tot + xpRequiredForLevel i) else tot)"
  by pat_completeness auto
termination
  by (relation "measure (\<lambda>(i, lvl, tot). nat (lvl + 1 - i))") auto

definition cumulativeXpForLevel :: "int \<Rightarrow> int" where
  "cumulativeXpForLevel lvl = cumulativeXp_loop 1 lvl 0"

text \<open>
  The loop of \<^verbatim>\<open>levelFromXp\<close>, from the state \<open>(level, remainingXp)\<close> to the state at
  its exit.
\<close>

function levelFromXp_loop :: "int \<Rightarrow> int \<Rightarrow> int \<times> int" where
  "levelFromXp_loop lvl remainingXp =
     (if lvl < MAX_LEVEL then
        (let required = xpRequiredForLevel lvl in
         if remainingXp < required then (lvl, remainingXp)
         else levelFromXp_loop (lvl + 1) (remainingXp - required))
      else (lvl, remainingXp))"
  by pat_completeness auto
termination
  by (relation "measure (\<lambda>(lvl, remainingXp). nat (MAX_LEVEL - lvl))") auto

record level_info =
  level :: int
  currentXp :: int
  xpToNext :: int
  progress :: int

text \<open>
  \<open>xpToNext\<close> is at least 100 because the loop leaves \<open>level \<ge> 1\<close>, so the division is
  never by zero.
\<close>

definition levelFromXp :: "int \<Rightarrow> level_info" where
  "levelFromXp totalXp =
     (case levelFromXp_loop 1 totalXp of (lvl, remainingXp) \<Rightarrow>
        let xpToNext' = xpRequiredForLevel lvl;
            progress' = min (mul64 (div64 (of_int remainingXp) (of_int xpToNext')) 100) 100
        in \<lparr>level = lvl, currentXp = remainingXp, xpToNext = xpToNext',
            progress = Math_round progress'\<rparr>)"

subsection \<open>Streak bonus and early completion bonus (lib/gamification/bonusCalculator.ts)\<close>

text \<open>
  \<open>basePoints\<close> and \<open>streakDays\<close> are integers; the multiplier is a double, and so are
  the constants \<^verbatim>\<open>0.05\<close> and \<^verbatim>\<open>2.5\<close>: the doubles nearest to the decimals. The field
  \<^verbatim>\<open>breakdown\<close> of \<^verbatim>\<open>PointsBreakdown\<close> is the record \<open>points_parts\<close>.
\<close>

definition STREAK_MULTIPLIER :: real where "STREAK_MULTIPLIER = binary64 (5 / 100)"
definition MAX_STREAK_BONUS :: real where "MAX_STREAK_BONUS = binary64 (25 / 10)"
definition STREAK_MILESTONES :: "int list" where "STREAK_MILESTONES = [3, 7, 14, 30, 60, 100]"

record points_parts =
  base :: int
  streak :: int
  milestone :: int

record PointsBreakdown =
  basePoints :: int
  streakMultiplier :: real
  streakBonus :: int
  milestoneBonus :: int
  totalPoints :: int
  breakdown :: points_parts

definition calculateStreakBonus :: "int \<Rightarrow> int \<Rightarrow> PointsBreakdown" where
  "calculateStreakBonus basePoints' streakDays =
     (let multiplier =
            min (add64 1 (mul64 (of_int streakDays) STREAK_MULTIPLIER)) MAX_STREAK_BONUS;
          bonusPoints = Math_round (mul64 (of_int basePoints') (sub64 multiplier 1));
          totalPoints' = basePoints' + bonusPoints;
          milestoneBonus' = (if streakDays \<in> set STREAK_MILESTONES then streakDays * 5 else 0)
      in \<lparr>basePoints = basePoints',
          streakMultiplier = multiplier,
          streakBonus = bonusPoints,
          milestoneBonus = milestoneBonus',
          totalPoints = totalPoints' + milestoneBonus',
          breakdown = \<lparr>base = basePoints', streak = bonusPoints, milestone = milestoneBonus'\<rparr>\<rparr>)"

definition calculateEarlyCompletionBonus :: "int \<Rightarrow> timestamp \<Rightarrow> timestamp \<Rightarrow> int" where
  "calculateEarlyCompletionBonus basePoints' dueDate completedAt =
     (if completedAt \<ge> dueDate then 0
      else let hoursEarly = div64 (of_int (dueDate - completedAt)) (1000 * 60 * 60) in
        if hoursEarly \<ge> 48 then Math_round (mul64 (of_int basePoints') (binary64 (25 / 100)))
        else if hoursEarly \<ge> 24 then Math_round (mul64 (of_int basePoints') (binary64 (15 / 100)))
        else if hoursEarly \<ge> 12 then Math_round (mul64 (of_int basePoints') (binary64 (10 / 100)))
        else if hoursEarly \<ge> 6 then Math_round (mul64 (of_int basePoints') (binary64 (5 / 100)))
        else 0)"

subsection \<open>The database\<close>

text \<open>
  The tables the gamification code reads and writes, each with the columns it uses. A
  nullable column is an \<open>option\<close>. \<open>notifications\<close> is what
  \<^verbatim>\<open>notificationService.send\<close> has been given.
\<close>

record user =
  u_id :: uuid
  u_family_id :: uuid
  u_role :: string
  first_name :: string
  avatar_url :: "string option"
  is_active :: bool

record child_profile =
  cp_user_id :: uuid
  total_points_earned :: int
  total_tasks_completed :: int
  current_streak_days :: int

record child_achievement =
  ca_child_id :: uuid
  ca_achievement_id :: uuid
  unlocked_at :: timestamp

record criteria_config =
  category :: "string option"
  before_time :: "string option"

record achievement =
  a_id :: uuid
  a_name :: string
  unlock_criteria_type :: string
  unlock_criteria_value :: int
  unlock_criteria_config :: "criteria_config option"
  points_reward :: int

record notification =
  n_user_id :: uuid
  n_type :: string
  n_title :: string
  n_message :: string

text \<open>
  A row of \<^verbatim>\<open>task_assignments\<close>, with the columns the gamification code reads and the
  category of its task (\<^verbatim>\<open>'task.category'\<close> in the queries).
\<close>

record task_assignment =
  ta_child_id :: uuid
  ta_status :: string
  approved_at :: "timestamp option"
  ta_category :: string

record database =
  users :: "user list"
  pointsLedger :: "points_ledger_row list"
  taskAssignments :: "task_assignment list"
  childProfiles :: "child_profile list"
  childAchievements :: "child_achievement list"
  achievements :: "achievement list"
  notifications :: "notification list"

subsection \<open>Streaks (lib/gamification/streakSystem.ts)\<close>

record StreakConfig =
  gracePeriodHours :: int
  timezoneOffset :: int
  minimumTasksPerDay :: int

definition DEFAULT_CONFIG :: StreakConfig where
  "DEFAULT_CONFIG = \<lparr>gracePeriodHours = 4, timezoneOffset = 0, minimumTasksPerDay = 1\<rparr>"

record StreakResult =
  currentStreak :: int
  streakAtRisk :: bool
  completedToday :: int
  requiredDaily :: int

text \<open>
  \<^verbatim>\<open>toISOString().split('T')[0]\<close> is the UTC calendar date \<^verbatim>\<open>YYYY-MM-DD\<close> of a time
  value. The model represents this string by the number of the UTC day since 1970-01-01:
  two time values have the same date string exactly when they have the same day number,
  and the strings are only compared for equality and used as keys.
\<close>

definition MS_PER_DAY :: int where "MS_PER_DAY = 24 * 60 * 60 * 1000"

definition toISODate :: "timestamp \<Rightarrow> int" where
  "toISODate t = t div MS_PER_DAY"

definition getStreakDay :: "StreakConfig \<Rightarrow> timestamp \<Rightarrow> int" where
  "getStreakDay config timestamp =
     (let adjusted = timestamp - gracePeriodHours config * 60 * 60 * 1000
      in toISODate adjusted)"

definition isToday :: "StreakConfig \<Rightarrow> timestamp \<Rightarrow> int \<Rightarrow> bool" where
  "isToday config now day \<longleftrightarrow> day = getStreakDay config now"

text \<open>
  \<^verbatim>\<open>getDate\<close> and \<^verbatim>\<open>setDate\<close> work in the local time of the process, which is not part
  of the program: it is the parameter \<open>zone\<close> of the model. A zone is its offset from UTC in
  milliseconds at the beginning of time and the list, in ascending order, of the instants
  (UTC) from which another offset applies. \<open>LocalTime\<close> and \<open>UTC\<close> are the conversions of
  ECMAScript; a local time that a clock change repeats or skips is read with the offset
  before the change.
\<close>

record process_zone =
  initial_offset :: int
  transitions :: "(timestamp \<times> int) list"

fun offset_at :: "int \<Rightarrow> (timestamp \<times> int) list \<Rightarrow> timestamp \<Rightarrow> int" where
  "offset_at off [] t = off"
| "offset_at off ((start, off') # later) t =
     (if start \<le> t then offset_at off' later t else off)"

fun offset_at_local :: "int \<Rightarrow> (timestamp \<times> int) list \<Rightarrow> timestamp \<Rightarrow> int" where
  "offset_at_local off [] t = off"
| "offset_at_local off ((start, off') # later) t =
     (if start + max off off' \<le> t then offset_at_local off' later t else off)"

definition LocalTime :: "process_zone \<Rightarrow> timestamp \<Rightarrow> timestamp" where
  "LocalTime zone t = t + offset_at (initial_offset zone) (transitions zone) t"

definition UTC :: "process_zone \<Rightarrow> timestamp \<Rightarrow> timestamp" where
  "UTC zone t = t - offset_at_local (initial_offset zone) (transitions zone) t"

definition fixed_offset :: "process_zone \<Rightarrow> bool" where
  "fixed_offset zone \<longleftrightarrow> transitions zone = []"

text \<open>
  \<^verbatim>\<open>date.setDate(date.getDate() - n)\<close> moves a date back by \<open>n\<close> local calendar days at
  the same local time of day, and converts the result back to UTC.
\<close>

definition setDate_minus :: "process_zone \<Rightarrow> timestamp \<Rightarrow> int \<Rightarrow> timestamp" where
  "setDate_minus zone date n = UTC zone (LocalTime zone date - n * MS_PER_DAY)"

text \<open>
  \<^verbatim>\<open>db.taskAssignments.find({child_id, status: 'approved', approved_at: {$gte: since}})
  .sort({approved_at: -1})\<close>; the loop over the result reads \<^verbatim>\<open>approved_at\<close> only, so the
  query returns these time values, latest first.
\<close>

definition find_approved_since :: "database \<Rightarrow> uuid \<Rightarrow> timestamp \<Rightarrow> timestamp list" where
  "find_approved_since db childId since =
     rev (sort (List.map_filter
       (\<lambda>a. if ta_child_id a = childId \<and> ta_status a = ''approved''
            then (case approved_at a of
                    None \<Rightarrow> None
                  | Some t \<Rightarrow> if since \<le> t then Some t else None)
            else None)
       (taskAssignments db)))"

text \<open>\<^verbatim>\<open>completionsByDay.get(day) || 0\<close>\<close>

definition get_or_0 :: "(int \<rightharpoonup> int) \<Rightarrow> int \<Rightarrow> int" where
  "get_or_0 m day = (case m day of None \<Rightarrow> 0 | Some n \<Rightarrow> n)"

text \<open>
  The loop \<^verbatim>\<open>for (const completion of completions)\<close> that fills the map
  \<^verbatim>\<open>completionsByDay\<close>, from its state \<open>byDay\<close>.
\<close>

fun group_by_streak_day :: "StreakConfig \<Rightarrow> timestamp list \<Rightarrow> (int \<rightharpoonup> int) \<Rightarrow> (int \<rightharpoonup> int)" where
  "group_by_streak_day config [] byDay = byDay"
| "group_by_streak_day config (approved # completions) byDay =
     (let day = getStreakDay config approved
      in group_by_streak_day config completions (byDay(day \<mapsto> get_or_0 byDay day + 1)))"

definition completionsByDay ::
  "process_zone \<Rightarrow> StreakConfig \<Rightarrow> database \<Rightarrow> uuid \<Rightarrow> timestamp \<Rightarrow> (int \<rightharpoonup> int)" where
  "completionsByDay zone config db childId now =
     (let ninetyDaysAgo = setDate_minus zone now 90;
          completions = find_approved_since db childId ninetyDaysAgo
      in group_by_streak_day config completions Map.empty)"

text \<open>
  The loop \<^verbatim>\<open>while (true)\<close> of \<^verbatim>\<open>calculateStreak\<close>, from the state
  \<open>(checkDate, currentStreak)\<close>; \<^verbatim>\<open>checkDay\<close> is \<open>getStreakDay checkDate\<close> at the head of
  every iteration. \<open>now\<close> is the value of \<^verbatim>\<open>new Date()\<close>, taken to be the same at every
  call during one computation. The result is \<open>None\<close> when the loop does not end.
\<close>

partial_function (option) streak_loop ::
  "process_zone \<Rightarrow> StreakConfig \<Rightarrow> (int \<rightharpoonup> int) \<Rightarrow> timestamp \<Rightarrow> timestamp \<Rightarrow> int
     \<Rightarrow> int option" where
  "streak_loop zone config byDay now checkDate currentStreak' =
     (let checkDay = getStreakDay config checkDate;
          tasksOnDay = get_or_0 byDay checkDay
      in if tasksOnDay \<ge> minimumTasksPerDay config then
           streak_loop zone config byDay now (setDate_minus zone checkDate 1) (currentStreak' + 1)
         else if currentStreak' = 0 \<and> isToday config now checkDay then
           streak_loop zone config byDay now (setDate_minus zone checkDate 1) currentStreak'
         else Some currentStreak')"

definition calculateStreak ::
  "process_zone \<Rightarrow> StreakConfig \<Rightarrow> database \<Rightarrow> uuid \<Rightarrow> timestamp \<Rightarrow> StreakResult option" where
  "calculateStreak zone config db childId now =
     (let byDay = completionsByDay zone config db childId now
      in case streak_loop zone config byDay now now 0 of
           None \<Rightarrow> None
         | Some currentStreak' \<Rightarrow>
             let todayCount = get_or_0 byDay (getStreakDay config now);
                 streakAtRisk' = (currentStreak' > 0 \<and> todayCount < minimumTasksPerDay config)
             in Some \<lparr>currentStreak = currentStreak',
                      streakAtRisk = streakAtRisk',
                      completedToday = todayCount,
                      requiredDaily = minimumTasksPerDay config\<rparr>)"

subsection \<open>Leaderboard (lib/gamification/leaderboard.ts)\<close>

text \<open>
  The fields \<^verbatim>\<open>childId\<close>, \<^verbatim>\<open>currentStreak\<close> and \<^verbatim>\<open>achievements\<close> of an entry and
  the fields of the weights carry a prefix, their names being in use.
\<close>

record LeaderboardEntry =
  le_childId :: uuid
  childName :: string
  avatarUrl :: "string option"
  score :: int
  rank :: int
  weeklyPoints :: int
  weeklyTasks :: int
  le_currentStreak :: int
  le_achievements :: int

record LeaderboardWeights =
  w_weeklyPoints :: real
  w_weeklyTasks :: real
  w_streakBonus :: real
  w_achievementBonus :: real

definition DEFAULT_WEIGHTS :: LeaderboardWeights where
  "DEFAULT_WEIGHTS =
     \<lparr>w_weeklyPoints = 1, w_weeklyTasks = 5, w_streakBonus = 2, w_achievementBonus = 10\<rparr>"

text \<open>The argument \<^verbatim>\<open>data\<close> of \<^verbatim>\<open>calculateScore\<close>.\<close>

record score_data =
  d_weeklyPoints :: int
  d_weeklyTasks :: int
  d_currentStreak :: int
  d_achievements :: int

definition calculateScore :: "LeaderboardWeights \<Rightarrow> score_data \<Rightarrow> real" where
  "calculateScore weights data' =
     real_of_int (d_weeklyPoints data') * w_weeklyPoints weights +
     real_of_int (d_weeklyTasks data') * w_weeklyTasks weights +
     real_of_int (d_currentStreak data') * w_streakBonus weights +
     real_of_int (d_achievements data') * w_achievementBonus weights"

text \<open>
  The four queries of the loop body: the sum of \<^verbatim>\<open>points_amount\<close> over the child's
  \<^verbatim>\<open>earned\<close> rows created in the range (0 when there is none), the number of the
  child's assignments approved in the range, \<^verbatim>\<open>profile?.current_streak_days || 0\<close>, and
  the number of the child's unlocked achievements.
\<close>

definition earned_points_in_range :: "database \<Rightarrow> uuid \<Rightarrow> timestamp \<times> timestamp \<Rightarrow> int" where
  "earned_points_in_range db cid dateRange =
     sum_list (map points_amount (filter
       (\<lambda>r. pl_child_id r = cid \<and> pl_transaction_type r = earned
            \<and> fst dateRange \<le> pl_created_at r \<and> pl_created_at r \<le> snd dateRange)
       (pointsLedger db)))"

definition approved_tasks_in_range :: "database \<Rightarrow> uuid \<Rightarrow> timestamp \<times> timestamp \<Rightarrow> int" where
  "approved_tasks_in_range db cid dateRange =
     int (length (filter
       (\<lambda>a. ta_child_id a = cid \<and> ta_status a = ''approved''
            \<and> (case approved_at a of
                  None \<Rightarrow> False
                | Some t \<Rightarrow> fst dateRange \<le> t \<and> t \<le> snd dateRange))
       (taskAssignments db)))"

definition profile_streak :: "database \<Rightarrow> uuid \<Rightarrow> int" where
  "profile_streak db cid =
     (case find (\<lambda>p. cp_user_id p = cid) (childProfiles db) of
        None \<Rightarrow> 0
      | Some profile \<Rightarrow> current_streak_days profile)"

definition achievement_count :: "database \<Rightarrow> uuid \<Rightarrow> int" where
  "achievement_count db cid =
     int (length (filter (\<lambda>r. ca_child_id r = cid) (childAchievements db)))"

definition leaderboard_entry ::
  "LeaderboardWeights \<Rightarrow> database \<Rightarrow> timestamp \<times> timestamp \<Rightarrow> user \<Rightarrow> LeaderboardEntry" where
  "leaderboard_entry weights db dateRange child =
     (let weeklyPoints' = earned_points_in_range db (u_id child) dateRange;
          weeklyTasks' = approved_tasks_in_range db (u_id child) dateRange;
          currentStreak' = profile_streak db (u_id child);
          achievements' = achievement_count db (u_id child);
          score' = calculateScore weights
            \<lparr>d_weeklyPoints = weeklyPoints', d_weeklyTasks = weeklyTasks',
             d_currentStreak = currentStreak', d_achievements = achievements'\<rparr>
      in \<lparr>le_childId = u_id child,
          childName = first_name child,
          avatarUrl = avatar_url child,
          score = Math_round score',
          rank = 0,
          weeklyPoints = weeklyPoints',
          weeklyTasks = weeklyTasks',
          le_currentStreak = currentStreak',
          le_achievements = achievements'\<rparr>)"

text \<open>
  \<^verbatim>\<open>entries.sort((a, b) => b.score - a.score)\<close>: a stable sort, descending by score.
  \<open>sort_key\<close> is a stable insertion sort, here on the negated score.
\<close>

definition sort_by_score_desc :: "LeaderboardEntry list \<Rightarrow> LeaderboardEntry list" where
  "sort_by_score_desc entries = sort_key (\<lambda>e. - score e) entries"

text \<open>\<^verbatim>\<open>entries.forEach((entry, index) => { entry.rank = index + 1 })\<close>\<close>

definition assign_ranks :: "LeaderboardEntry list \<Rightarrow> LeaderboardEntry list" where
  "assign_ranks entries =
     map (\<lambda>(index, entry). entry\<lparr>rank := int index + 1\<rparr>) (enumerate 0 entries)"

text \<open>
  \<open>dateRange\<close> is the result \<open>(start, end)\<close> of \<^verbatim>\<open>getDateRange(period)\<close>, whose calendar
  arithmetic on the local time is not modelled: the leaderboard is computed for any range.
\<close>

definition getFamilyLeaderboard ::
  "LeaderboardWeights \<Rightarrow> database \<Rightarrow> uuid \<Rightarrow> timestamp \<times> timestamp \<Rightarrow> LeaderboardEntry list" where
  "getFamilyLeaderboard weights db familyId dateRange =
     (let children = filter
            (\<lambda>u. u_family_id u = familyId \<and> u_role u = ''child'' \<and> is_active u) (users db);
          entries = map (leaderboard_entry weights db dateRange) children
      in assign_ranks (sort_by_score_desc entries))"

subsection \<open>Achievement engine\<close>

text \<open>
  Reading a property of \<^verbatim>\<open>null\<close> throws a \<^verbatim>\<open>TypeError\<close>; a statement that the
  database refuses throws its error.
\<close>

datatype js_error = TypeError | DatabaseError sql_error

record AchievementEvent =
  ev_type :: string
  taskCategory :: string

text \<open>
  \<^verbatim>\<open>db.taskAssignments.count({child_id, status: 'approved', 'task.category': category})\<close>
\<close>

definition category_count :: "database \<Rightarrow> uuid \<Rightarrow> string \<Rightarrow> int" where
  "category_count db cid cat =
     int (length (filter
       (\<lambda>a. ta_child_id a = cid \<and> ta_status a = ''approved'' \<and> ta_category a = cat)
       (taskAssignments db)))"

text \<open>
  The \<^verbatim>\<open>switch\<close> on \<^verbatim>\<open>unlock_criteria_type\<close>, with its \<^verbatim>\<open>default\<close> branch. \<open>child\<close> is
  the result of \<^verbatim>\<open>findOne\<close>, absent when there is no profile. A configuration without a
  category matches no assignment, every assignment having one.
\<close>

definition checkUnlockCriteria ::
  "database \<Rightarrow> child_profile option \<Rightarrow> achievement \<Rightarrow> AchievementEvent \<Rightarrow> js_error + bool" where
  "checkUnlockCriteria db child achievement event =
     (if unlock_criteria_type achievement = ''streak_days'' then
        (case child of
           None \<Rightarrow> Inl TypeError
         | Some c \<Rightarrow> Inr (current_streak_days c \<ge> unlock_criteria_value achievement))
      else if unlock_criteria_type achievement = ''tasks_completed'' then
        (case child of
           None \<Rightarrow> Inl TypeError
         | Some c \<Rightarrow> Inr (total_tasks_completed c \<ge> unlock_criteria_value achievement))
      else if unlock_criteria_type achievement = ''points_earned'' then
        (case child of
           None \<Rightarrow> Inl TypeError
         | Some c \<Rightarrow> Inr (total_points_earned c \<ge> unlock_criteria_value achievement))
      else if unlock_criteria_type achievement = ''category_master'' then
        (case child of
           None \<Rightarrow> Inl TypeError
         | Some c \<Rightarrow>
             (case unlock_criteria_config achievement of
                None \<Rightarrow> Inl TypeError
              | Some config \<Rightarrow>
                  let categoryCount =
                        (case category config of
                           None \<Rightarrow> 0
                         | Some cat \<Rightarrow> category_count db (cp_user_id c) cat)
                  in Inr (categoryCount \<ge> unlock_criteria_value achievement)))
      else Inr False)"

text \<open>
  Modelled from the spec: \<^verbatim>\<open>awardPoints\<close>, which \<^verbatim>\<open>unlockAchievement\<close> calls and the
  source does not define. The spec: on first unlock, "if \<^verbatim>\<open>pointsReward > 0\<close>, append a
  LedgerEntry of type \<^verbatim>\<open>bonus\<close> with \<^verbatim>\<open>referenceType = achievement_unlock\<close>", an entry
  "whose \<^verbatim>\<open>balanceAfter\<close> equals the child's prior balance plus this amount". The entry
  is a row of the table \<^verbatim>\<open>points_ledger\<close>, so it is appended by an \<^verbatim>\<open>INSERT\<close>, under the
  trigger of the table; the error of a refused \<^verbatim>\<open>INSERT\<close> is thrown to the caller.
\<close>

definition awardPoints ::
  "database \<Rightarrow> uuid \<Rightarrow> int \<Rightarrow> string \<Rightarrow> timestamp \<Rightarrow> sql_error + database" where
  "awardPoints db childId points referenceType now =
     (case insert_points_ledger (pointsLedger db)
             \<lparr>pl_child_id = childId, pl_transaction_type = bonus, points_amount = points,
              balance_after = calculated_balance (pointsLedger db) childId + points,
              pl_reference_type = referenceType, pl_created_at = now\<rparr> of
        Inl e \<Rightarrow> Inl e
      | Inr points_ledger \<Rightarrow> Inr (db\<lparr>pointsLedger := points_ledger\<rparr>))"





text \<open>
  The criteria table of the specification for \<^verbatim>\<open>time_based\<close>: the "count of completions
  before the configured cutoff time", the cutoff being a time of day in minutes (UTC).
\<close>

definition spec_completions_before :: "database \<Rightarrow> uuid \<Rightarrow> int \<Rightarrow> int" where
  "spec_completions_before db cid cutoff_minutes =
     int (length (filter
       (\<lambda>a. ta_child_id a = cid \<and> ta_status a = ''approved''
            \<and> (case approved_at a of
                  None \<Rightarrow> False
                | Some t \<Rightarrow> (t mod MS_PER_DAY) div 60000 < cutoff_minutes))
       (taskAssignments db)))"

subsection \<open>Example data\<close>

text \<open>
  Day 20000 is 2024-10-04; it starts at 1728000000000 ms. \<open>three_day_history\<close> has one
  approved completion of \<open>kid\<close> at noon on each of the days 19998, 19999 and 20000;
  \<open>partial_today_history\<close> has two on day 19999 and one on day 20000.
\<close>

definition approved_row :: "uuid \<Rightarrow> timestamp \<Rightarrow> task_assignment" where
  "approved_row cid t =
     \<lparr>ta_child_id = cid, ta_status = ''approved'', approved_at = Some t, ta_category = ''cleaning''\<rparr>"

definition history_db :: "task_assignment list \<Rightarrow> database" where
  "history_db rows =
     \<lparr>users = [], pointsLedger = [], taskAssignments = rows, childProfiles = [],
      childAchievements = [], achievements = [], notifications = []\<rparr>"

definition three_day_history :: database where
  "three_day_history = history_db
     [approved_row ''kid'' 1727870400000,
      approved_row ''kid'' 1727956800000,
      approved_row ''sister'' 1727956800000,
      \<lparr>ta_child_id = ''kid'', ta_status = ''pending'', approved_at = None, ta_category = ''cleaning''\<rparr>,
      approved_row ''kid'' 1728043200000]"

definition partial_today_history :: database where
  "partial_today_history = history_db
     [approved_row ''kid'' 1727956800000,
      approved_row ''kid'' 1727960400000,
      approved_row ''kid'' 1728043200000]"

text \<open>
  Two zones: UTC, and New York around the end of daylight saving time in 2024, four hours
  behind UTC until 2024-11-03 06:00 UTC (1730613600000 ms) and five hours from then on.
  \<open>clock_change_history\<close> has one approved completion of \<open>kid\<close> at noon UTC on 2024-11-01
  (day 20028) and on 2024-11-02 (day 20029), none on 2024-11-03, and one at 04:10 UTC on
  2024-11-04 (day 20031).
\<close>

definition zone_UTC :: process_zone where
  "zone_UTC = \<lparr>initial_offset = 0, transitions = []\<rparr>"

definition zone_New_York :: process_zone where
  "zone_New_York =
     \<lparr>initial_offset = - 4 * 60 * 60 * 1000,
      transitions = [(1730613600000, - 5 * 60 * 60 * 1000)]\<rparr>"

definition clock_change_history :: database where
  "clock_change_history = history_db
     [approved_row ''kid'' 1730462400000,
      approved_row ''kid'' 1730548800000,
      approved_row ''kid'' 1730693400000]"

text \<open>
  Two achievements of \<^verbatim>\<open>SYSTEM_ACHIEVEMENTS\<close>, and a child who has completed a task at
  07:00 on each of the ten days 19990 to 19999.
\<close>

definition First_Steps :: achievement where
  "First_Steps =
     \<lparr>a_id = ''a-first-steps'', a_name = ''First Steps'',
      unlock_criteria_type = ''tasks_completed'', unlock_criteria_value = 1,
      unlock_criteria_config = None, points_reward = 10\<rparr>"

definition Early_Bird :: achievement where
  "Early_Bird =
     \<lparr>a_id = ''a-early-bird'', a_name = ''Early Bird'',
      unlock_criteria_type = ''time_based'', unlock_criteria_value = 10,
      unlock_criteria_config = Some \<lparr>category = None, before_time = Some ''08:00''\<rparr>,
      points_reward = 75\<rparr>"

definition kid_profile :: child_profile where
  "kid_profile =
     \<lparr>cp_user_id = ''kid'', total_points_earned = 150, total_tasks_completed = 10,
      current_streak_days = 10\<rparr>"

definition early_bird_db :: database where
  "early_bird_db =
     \<lparr>users = [], pointsLedger = [],
      taskAssignments =
        [approved_row ''kid'' 1727161200000, approved_row ''kid'' 1727247600000,
         approved_row ''kid'' 1727334000000, approved_row ''kid'' 1727420400000,
         approved_row ''kid'' 1727506800000, approved_row ''kid'' 1727593200000,
         approved_row ''kid'' 1727679600000, approved_row ''kid'' 1727766000000,
         approved_row ''kid'' 1727852400000, approved_row ''kid'' 1727938800000],
      childProfiles = [kid_profile], childAchievements = [],
      achievements = [First_Steps, Early_Bird], notifications = []\<rparr>"

text \<open>
  A family with a parent, two active children and one inactive child. In the range
  \<open>(0, 1000)\<close> Ann has earned 20 points and completed one task, with a streak of 3 days and
  one achievement; Bob has earned 50 points, redeemed 30, and has no profile.
\<close>

definition family_db :: database where
  "family_db =
     \<lparr>users =
        [\<lparr>u_id = ''mum'', u_family_id = ''f1'', u_role = ''parent'', first_name = ''Mum'',
          avatar_url = None, is_active = True\<rparr>,
         \<lparr>u_id = ''ann'', u_family_id = ''f1'', u_role = ''child'', first_name = ''Ann'',
          avatar_url = None, is_active = True\<rparr>,
         \<lparr>u_id = ''bob'', u_family_id = ''f1'', u_role = ''child'', first_name = ''Bob'',
          avatar_url = None, is_active = True\<rparr>,
         \<lparr>u_id = ''cat'', u_family_id = ''f1'', u_role = ''child'', first_name = ''Cat'',
          avatar_url = None, is_active = False\<rparr>],
      pointsLedger =
        [\<lparr>pl_child_id = ''ann'', pl_transaction_type = earned, points_amount = 20,
          balance_after = 20, pl_reference_type = ''task_completion'', pl_created_at = 10\<rparr>,
         \<lparr>pl_child_id = ''bob'', pl_transaction_type = earned, points_amount = 50,
          balance_after = 50, pl_reference_type = ''task_completion'', pl_created_at = 20\<rparr>,
         \<lparr>pl_child_id = ''bob'', pl_transaction_type = redeemed, points_amount = - 30,
          balance_after = 20, pl_reference_type = ''reward_redemption'', pl_created_at = 30\<rparr>],
      taskAssignments = [approved_row ''ann'' 10],
      childProfiles =
        [\<lparr>cp_user_id = ''ann'', total_points_earned = 20, total_tasks_completed = 1,
          current_streak_days = 3\<rparr>],
      childAchievements =
        [\<lparr>ca_child_id = ''ann'', ca_achievement_id = ''a-first-steps'', unlocked_at = 10\<rparr>],
      achievements = [First_Steps, Early_Bird],
      notifications = []\<rparr>"

section \<open>Properties\<close>

subsection \<open>Doubles\<close>

text \<open>Rounding to an integer is monotone, exact on integers and off by at most a half.\<close>

lemma round_half_even_of_int: "round_half_even (of_int k) = k"
  by (simp add: round_half_even_def)

lemma round_half_even_ge:
  assumes "of_int k \<le> z" shows "k \<le> round_half_even z"
proof -
  have "k \<le> \<lfloor>z\<rfloor>" using assms by (simp add: le_floor_iff)
  then show ?thesis by (auto simp: round_half_even_def Let_def)
qed

lemma round_half_even_le:
  assumes "z \<le> of_int k" shows "round_half_even z \<le> k"
proof (cases "z = of_int k")
  case True
  then show ?thesis by (simp add: round_half_even_of_int)
next
  case False
  then have "z < of_int k" using assms by simp
  then have "\<lfloor>z\<rfloor> < k" by (simp add: floor_less_iff)
  then show ?thesis by (auto simp: round_half_even_def Let_def)
qed

lemma round_half_even_error: "\<bar>of_int (round_half_even z) - z\<bar> \<le> 1 / 2"
proof -
  have "of_int \<lfloor>z\<rfloor> \<le> z" "z < of_int \<lfloor>z\<rfloor> + 1" by linarith+
  then show ?thesis
    by (auto simp: round_half_even_def Let_def abs_le_iff)
qed

text \<open>The binade of \<open>x > 0\<close> is the \<open>k\<close> with \<open>2\<^sup>k \<le> x < 2\<^sup>k\<^sup>+\<^sup>1\<close>.\<close>

lemma powi2_neg: "0 \<le> k \<Longrightarrow> (2::real) powi (- k) = 1 / 2 ^ nat k"
proof -
  assume "0 \<le> k"
  then have "(2::real) powi k = 2 ^ nat k" by (simp add: power_int_def)
  then show ?thesis by (simp only: power_int_minus_divide)
qed

lemma binade_bounds:
  assumes "0 < x"
  shows "2 powi binade x \<le> x" and "x < 2 powi (binade x + 1)"
proof -
  have "2 powi binade x \<le> x \<and> x < 2 powi (binade x + 1)"
  proof (cases "1 \<le> x")
    case True
    let ?n = "\<lfloor>x\<rfloor>"
    have n: "0 < ?n" using True by simp
    have k: "1 \<le> bitlen ?n" using n by (simp add: bitlen_alt_def)
    have lo: "2 ^ nat (bitlen ?n - 1) \<le> ?n" and hi: "?n < 2 ^ nat (bitlen ?n)"
      using bitlen_bounds [OF n] by simp_all
    have "real_of_int (2 ^ nat (bitlen ?n - 1)) \<le> real_of_int ?n"
      using lo by (simp only: of_int_le_iff)
    then have a: "2 ^ nat (bitlen ?n - 1) \<le> x"
      by (simp add: le_floor_iff)
    have "?n + 1 \<le> 2 ^ nat (bitlen ?n)" using hi by simp
    then have "real_of_int (?n + 1) \<le> real_of_int (2 ^ nat (bitlen ?n))"
      by (simp only: of_int_le_iff)
    then have h1: "real_of_int ?n + 1 \<le> 2 ^ nat (bitlen ?n)" by simp
    have h2: "x < real_of_int ?n + 1" by linarith
    have b: "x < 2 ^ nat (bitlen ?n)" using h1 h2 by (rule less_le_trans [rotated])
    have "binade x = bitlen ?n - 1" using True by (simp add: binade_def)
    then show ?thesis
      using a b k by (simp add: power_int_def)
  next
    case False
    then have x1: "x < 1" by simp
    let ?y = "1 / x"
    let ?n = "\<lceil>?y\<rceil> - 1"
    have y1: "1 < ?y" using assms x1 by simp
    then have "1 < \<lceil>?y\<rceil>" by (simp add: less_ceiling_iff)
    then have n: "0 < ?n" by simp
    have k: "1 \<le> bitlen ?n" using n by (simp add: bitlen_alt_def)
    have lo: "2 ^ nat (bitlen ?n - 1) \<le> ?n" and hi: "?n < 2 ^ nat (bitlen ?n)"
      using bitlen_bounds [OF n] by simp_all
    have "\<lceil>?y\<rceil> \<le> 2 ^ nat (bitlen ?n)" using hi by simp
    then have "real_of_int \<lceil>?y\<rceil> \<le> real_of_int (2 ^ nat (bitlen ?n))"
      by (simp only: of_int_le_iff)
    then have h3: "real_of_int \<lceil>?y\<rceil> \<le> 2 ^ nat (bitlen ?n)" by simp
    have h4: "?y \<le> real_of_int \<lceil>?y\<rceil>" by (rule le_of_int_ceiling)
    have yhi: "?y \<le> 2 ^ nat (bitlen ?n)" using h4 h3 by (rule order_trans)
    have "real_of_int (2 ^ nat (bitlen ?n - 1)) \<le> real_of_int ?n"
      using lo by (simp only: of_int_le_iff)
    then have h5: "2 ^ nat (bitlen ?n - 1) \<le> real_of_int ?n" by simp
    have h6: "real_of_int ?n < ?y" by linarith
    have ylo: "2 ^ nat (bitlen ?n - 1) < ?y" using h5 h6 by (rule le_less_trans)
    have a: "1 / 2 ^ nat (bitlen ?n) \<le> x"
    proof -
      have "1 \<le> 2 ^ nat (bitlen ?n) * x"
        using yhi assms by (simp add: pos_divide_le_eq)
      then show ?thesis by (simp add: pos_divide_le_eq mult.commute)
    qed
    have b: "x < 1 / 2 ^ nat (bitlen ?n - 1)"
    proof -
      have "2 ^ nat (bitlen ?n - 1) * x < 1"
        using ylo assms by (simp add: pos_less_divide_eq)
      then show ?thesis by (simp add: pos_less_divide_eq mult.commute)
    qed
    have bin: "binade x = - bitlen ?n" using False by (simp add: binade_def)
    have p1: "(2::real) powi (- bitlen ?n) = 1 / 2 ^ nat (bitlen ?n)"
      using k by (intro powi2_neg) simp
    have "(2::real) powi (- (bitlen ?n - 1)) = 1 / 2 ^ nat (bitlen ?n - 1)"
      using k by (intro powi2_neg) simp
    then have p2: "(2::real) powi (- bitlen ?n + 1) = 1 / 2 ^ nat (bitlen ?n - 1)"
      by (simp add: algebra_simps)
    show ?thesis
      using a b by (simp only: bin p1 p2 simp_thms)
  qed
  then show "2 powi binade x \<le> x" and "x < 2 powi (binade x + 1)" by simp_all
qed

lemma powi2_mono: "a \<le> b \<Longrightarrow> (2::real) powi a \<le> 2 powi b"
  by (rule power_int_increasing) simp_all

lemma powi2_less_imp: "(2::real) powi a < 2 powi b \<Longrightarrow> a < b"
  using powi2_mono [of b a] by (cases "a < b") simp_all

lemma binade_eqI:
  assumes "2 powi k \<le> x" and "x < 2 powi (k + 1)"
  shows "binade x = k"
proof -
  have pos: "0 < x"
    using assms(1) by (rule less_le_trans [rotated]) simp
  note b = binade_bounds [OF pos]
  have "(2::real) powi k < 2 powi (binade x + 1)" using assms(1) b(2) by simp
  then have "k < binade x + 1" by (rule powi2_less_imp)
  moreover have "(2::real) powi binade x < 2 powi (k + 1)" using assms(2) b(1) by simp
  then have "binade x < k + 1" by (rule powi2_less_imp)
  ultimately show ?thesis by simp
qed

lemma binade_mono:
  assumes "0 < x" "x \<le> y" shows "binade x \<le> binade y"
proof -
  have "0 < y" using assms by simp
  have "(2::real) powi binade x < 2 powi (binade y + 1)"
    using binade_bounds(1) [OF assms(1)] binade_bounds(2) [OF \<open>0 < y\<close>] assms(2) by simp
  then have "binade x < binade y + 1" by (rule powi2_less_imp)
  then show ?thesis by simp
qed


lemma powi2_pos: "0 < (2::real) powi e"
  by (simp add: zero_less_power_int)

lemma powi2_Suc: "(2::real) powi (e + 1) = 2 * 2 powi e"
  by (simp add: power_int_add)

lemma powi2_52: "(2::real) powi (k - 52) * 2 ^ 52 = 2 powi k"
proof -
  have "(2::real) powi (k - 52) * 2 powi 52 = 2 powi (k - 52 + 52)"
    by (rule power_int_add [symmetric]) simp
  then show ?thesis by simp
qed

lemma powi2_52c: "(2::real) ^ 52 * 2 powi (k - 52) = 2 powi k"
  using powi2_52 [of k] by (simp only: mult.commute)

text \<open>The scaled value of a nonzero number has 53 binary digits before the point.\<close>

lemma scaled_bounds:
  assumes "x \<noteq> 0"
  defines "e \<equiv> binade \<bar>x\<bar> - 52"
  shows "2 ^ 52 \<le> \<bar>x\<bar> / 2 powi e" and "\<bar>x\<bar> / 2 powi e < 2 ^ 53"
proof -
  have pos: "0 < \<bar>x\<bar>" using assms(1) by simp
  note b = binade_bounds [OF pos]
  have k: "(2::real) powi e * 2 ^ 52 = 2 powi binade \<bar>x\<bar>"
    unfolding e_def by (rule powi2_52)
  have "2 powi e * 2 ^ 52 \<le> \<bar>x\<bar>" using b(1) k by simp
  then show "2 ^ 52 \<le> \<bar>x\<bar> / 2 powi e"
    by (simp add: pos_le_divide_eq powi2_pos mult.commute)
  have "\<bar>x\<bar> < 2 powi e * 2 ^ 53" using b(2) k by (simp add: powi2_Suc)
  then show "\<bar>x\<bar> / 2 powi e < 2 ^ 53"
    by (simp add: pos_divide_less_eq powi2_pos mult.commute)
qed

lemma binary64_nonneg: "0 \<le> x \<Longrightarrow> 0 \<le> binary64 x"
proof -
  assume x: "0 \<le> x"
  have "0 \<le> round_half_even (x / 2 powi e)" for e
    using x by (intro round_half_even_ge) (simp add: powi2_pos less_imp_le)
  then show ?thesis
    by (simp add: binary64_def Let_def powi2_pos less_imp_le)
qed

lemma binary64_nonpos: "x \<le> 0 \<Longrightarrow> binary64 x \<le> 0"
proof -
  assume x: "x \<le> 0"
  have "round_half_even (x / 2 powi e) \<le> 0" for e
    using x by (intro round_half_even_le) (simp add: divide_nonpos_pos powi2_pos)
  then show ?thesis
    by (simp add: binary64_def Let_def mult_nonpos_nonneg powi2_pos less_imp_le)
qed

text \<open>Rounding does not leave the binade downwards.\<close>

lemma binary64_ge_powi:
  assumes "0 < x" shows "2 powi binade x \<le> binary64 x"
proof -
  let ?e = "binade x - 52"
  have x: "x \<noteq> 0" "\<bar>x\<bar> = x" using assms by simp_all
  have "2 ^ 52 \<le> x / 2 powi ?e"
    using scaled_bounds(1) [OF x(1)] by (simp add: x(2))
  then have "real_of_int (2 ^ 52) \<le> x / 2 powi ?e" by simp
  then have "2 ^ 52 \<le> round_half_even (x / 2 powi ?e)"
    by (rule round_half_even_ge)
  then have "real_of_int (2 ^ 52) \<le> real_of_int (round_half_even (x / 2 powi ?e))"
    by (simp only: of_int_le_iff)
  then have "(2::real) ^ 52 \<le> real_of_int (round_half_even (x / 2 powi ?e))"
    by simp
  then have "(2::real) ^ 52 * 2 powi ?e
      \<le> real_of_int (round_half_even (x / 2 powi ?e)) * 2 powi ?e"
    by (rule mult_right_mono) (simp add: powi2_pos less_imp_le)
  then have "2 powi binade x \<le> real_of_int (round_half_even (x / 2 powi ?e)) * 2 powi ?e"
    by (simp only: powi2_52c)
  moreover have "binary64 x = real_of_int (round_half_even (x / 2 powi ?e)) * 2 powi ?e"
    using x by (simp add: binary64_def Let_def)
  ultimately show ?thesis by (simp only:)
qed

lemma binary64_ge_1:
  assumes "1 \<le> x" shows "1 \<le> binary64 x"
proof -
  have pos: "0 < x" using assms by simp
  have "binade 1 \<le> binade x" using assms by (intro binade_mono) simp_all
  moreover have "binade 1 = 0" by (rule binade_eqI) simp_all
  ultimately have "(2::real) powi 0 \<le> 2 powi binade x" by (intro powi2_mono) simp
  then show ?thesis using binary64_ge_powi [OF pos] by simp
qed

text \<open>
  A number with a 53-bit significand is a double: rounding stays on the same side of it.
\<close>

lemma binary64_lower:
  assumes m: "2 ^ 52 \<le> m" "m < 2 ^ 53" and le: "of_int m * 2 powi e \<le> x"
  shows "of_int m * 2 powi e \<le> binary64 x"
proof -
  let ?r = "real_of_int m * 2 powi e"
  have m52: "(2::real) ^ 52 \<le> real_of_int m"
    using m(1) of_int_le_iff [of "2 ^ 52" m, where ?'a = real] by simp
  have m53: "real_of_int m < 2 ^ 53"
    using m(2) of_int_less_iff [of m "2 ^ 53", where ?'a = real] by simp
  have rpos: "0 < ?r" using m52 by (intro mult_pos_pos) (simp_all add: powi2_pos)
  then have xpos: "0 < x" using le by simp
  have p52: "(2::real) ^ 52 * 2 powi e = 2 powi (e + 52)"
    using powi2_52c [of "e + 52"] by simp
  have "(2::real) ^ 52 * 2 powi e \<le> ?r"
    using m52 by (rule mult_right_mono) (simp add: powi2_pos less_imp_le)
  then have rlo: "2 powi (e + 52) \<le> ?r" by (simp only: p52)
  have "?r < 2 ^ 53 * 2 powi e"
    using m53 by (rule mult_strict_right_mono) (rule powi2_pos)
  also have "\<dots> = 2 * (2 ^ 52 * 2 powi e)" by simp
  also have "\<dots> = 2 powi (e + 52 + 1)" by (simp only: p52 powi2_Suc)
  finally have rhi: "?r < 2 powi (e + 52 + 1)" .
  from rlo rhi have br: "binade ?r = e + 52" by (rule binade_eqI)
  have mono: "e + 52 \<le> binade x"
    using binade_mono [OF rpos le] br by simp
  show ?thesis
  proof (cases "binade x = e + 52")
    case True
    have x: "x \<noteq> 0" using xpos by simp
    have "real_of_int m \<le> x / 2 powi e"
      using le by (simp add: pos_le_divide_eq powi2_pos)
    then have "m \<le> round_half_even (x / 2 powi e)" by (rule round_half_even_ge)
    then have "real_of_int m \<le> real_of_int (round_half_even (x / 2 powi e))"
      by (simp only: of_int_le_iff)
    then have "?r \<le> real_of_int (round_half_even (x / 2 powi e)) * 2 powi e"
      by (intro mult_right_mono) (simp_all add: powi2_pos less_imp_le)
    moreover have "binary64 x = real_of_int (round_half_even (x / 2 powi e)) * 2 powi e"
      using x xpos True by (simp add: binary64_def Let_def)
    ultimately show ?thesis by simp
  next
    case False
    then have "e + 52 + 1 \<le> binade x" using mono by simp
    then have "(2::real) powi (e + 52 + 1) \<le> 2 powi binade x" by (rule powi2_mono)
    then show ?thesis
      using rhi binary64_ge_powi [OF xpos] by simp
  qed
qed

text \<open>The relative error of a rounding is at most \<open>2\<^sup>-\<^sup>5\<^sup>3\<close>.\<close>

lemma binary64_error: "\<bar>binary64 x - x\<bar> \<le> \<bar>x\<bar> / 2 ^ 53"
proof (cases "x = 0")
  case True
  then show ?thesis by (simp add: binary64_def)
next
  case False
  let ?e = "binade \<bar>x\<bar> - 52"
  let ?z = "x / 2 powi ?e"
  have b: "binary64 x = real_of_int (round_half_even ?z) * 2 powi ?e"
    using False by (simp add: binary64_def Let_def)
  have x: "x = ?z * 2 powi ?e" using powi2_pos [of ?e] by simp
  have "binary64 x - x = (real_of_int (round_half_even ?z) - ?z) * 2 powi ?e"
    by (subst (2) x, subst b) (simp only: left_diff_distrib)
  then have "\<bar>binary64 x - x\<bar> = \<bar>real_of_int (round_half_even ?z) - ?z\<bar> * 2 powi ?e"
    using powi2_pos [of ?e] by (simp add: abs_mult)
  also have "\<dots> \<le> 1 / 2 * 2 powi ?e"
    by (intro mult_right_mono round_half_even_error) (simp add: powi2_pos less_imp_le)
  also have "\<dots> \<le> \<bar>x\<bar> / 2 ^ 53"
  proof -
    have "2 ^ 52 * 2 powi ?e \<le> \<bar>x\<bar>"
      using scaled_bounds(1) [OF False] by (simp add: pos_le_divide_eq powi2_pos)
    then show ?thesis by simp
  qed
  finally show ?thesis .
qed

text \<open>Integers below \<open>2\<^sup>5\<^sup>3\<close> are doubles.\<close>

lemma binary64_of_int:
  assumes "\<bar>n\<bar> < 2 ^ 53" shows "binary64 (of_int n) = of_int n"
proof (cases "n = 0")
  case True
  then show ?thesis by (simp add: binary64_def)
next
  case False
  let ?x = "real_of_int n"
  let ?k = "binade \<bar>?x\<bar>"
  have pos: "0 < \<bar>?x\<bar>" using False by simp
  have "\<bar>?x\<bar> < 2 ^ 53"
    using assms of_int_less_iff [of "\<bar>n\<bar>" "2 ^ 53", where ?'a = real] by simp
  then have "(2::real) powi ?k < 2 powi 53"
    using binade_bounds(1) [OF pos] by simp
  then have k: "?k < 53" by (rule powi2_less_imp)
  define j where "j = nat (52 - ?k)"
  have e: "?k - 52 = - int j" using k by (simp add: j_def)
  have p: "(2::real) powi (?k - 52) = 1 / 2 ^ j"
    unfolding e using powi2_neg [of "int j"] by simp
  have "?x / 2 powi (?k - 52) = real_of_int (n * 2 ^ j)" by (simp add: p)
  then have "round_half_even (?x / 2 powi (?k - 52)) = n * 2 ^ j"
    by (simp only: round_half_even_of_int)
  then show ?thesis
    using False by (simp add: binary64_def Let_def p)
qed

text \<open>Evaluating a rounding at a given number.\<close>

lemmas binary64_eval =
  binary64_def binade_def round_half_even_def Let_def compute_bitlen power_int_minus
  add64_def sub64_def mul64_def div64_def


subsection \<open>The ledger trigger\<close>

lemma insert_points_ledger_accepts_iff:
  "(\<exists>l. insert_points_ledger points_ledger NEW = Inr l) \<longleftrightarrow>
     balance_after NEW = calculated_balance points_ledger (pl_child_id NEW)"
  by (simp add: insert_points_ledger_def validate_points_balance_def)

lemma insert_points_ledger_result:
  "insert_points_ledger points_ledger NEW = Inr l \<Longrightarrow> l = points_ledger @ [NEW]"
  by (simp add: insert_points_ledger_def validate_points_balance_def split: if_splits)

text \<open>
  C1. The claim: an append whose \<open>balance_after\<close> is the child's prior balance plus the
  entry's \<open>points_amount\<close> is accepted, and one whose \<open>balance_after\<close> is anything else is
  refused. The trigger compares \<open>balance_after\<close> with the sum of the rows already in the
  table, which leaves the new amount out: the first entry of a child, 10 points with
  \<open>balance_after = 10\<close>, is refused with \<^verbatim>\<open>Points balance mismatch\<close>, and the same entry
  with \<open>balance_after = 0\<close> is accepted.
\<close>

theorem first_correct_append_is_refused:
  "insert_points_ledger []
     \<lparr>pl_child_id = ''c1'', pl_transaction_type = earned, points_amount = 10,
      balance_after = 0 + 10, pl_reference_type = ''task_completion'',
      pl_created_at = 1728043200000\<rparr>
   = Inl Points_balance_mismatch
   \<and> insert_points_ledger []
     \<lparr>pl_child_id = ''c1'', pl_transaction_type = earned, points_amount = 10,
      balance_after = 0, pl_reference_type = ''task_completion'',
      pl_created_at = 1728043200000\<rparr>
   = Inr [\<lparr>pl_child_id = ''c1'', pl_transaction_type = earned, points_amount = 10,
           balance_after = 0, pl_reference_type = ''task_completion'',
           pl_created_at = 1728043200000\<rparr>]"
  by (simp add: insert_points_ledger_def validate_points_balance_def calculated_balance_def)

subsection \<open>Level progression\<close>

declare cumulativeXp_loop.simps [simp del] levelFromXp_loop.simps [simp del]

lemma xpRequiredForLevel_nonpos: "lvl \<le> 0 \<Longrightarrow> xpRequiredForLevel lvl = 0"
  by (simp add: xpRequiredForLevel_def)

lemma xpRequiredForLevel_ge_100: 
  assumes "1 \<le> lvl" shows "100 \<le> xpRequiredForLevel lvl"
proof -
  have "1 \<le> real_of_int lvl" using assms by simp
  then have "1 \<le> real_of_int lvl powr GROWTH_FACTOR"
    by (simp add: GROWTH_FACTOR_def ge_one_powr_ge_zero)
  then have "real_of_int 100 \<le> BASE_XP * real_of_int lvl powr GROWTH_FACTOR"
    by (simp add: BASE_XP_def)
  then have "100 \<le> \<lfloor>BASE_XP * real_of_int lvl powr GROWTH_FACTOR\<rfloor>"
    by (simp add: le_floor_iff)
  then show ?thesis using assms by (simp add: xpRequiredForLevel_def Math_floor_def)
qed

lemma xpRequiredForLevel_nonneg: "0 \<le> xpRequiredForLevel lvl"
  using xpRequiredForLevel_ge_100 [of lvl] xpRequiredForLevel_nonpos [of lvl]
  by (cases "lvl \<le> 0") auto

lemma xpRequiredForLevel_1: "xpRequiredForLevel 1 = 100"
  by (simp add: xpRequiredForLevel_def Math_floor_def BASE_XP_def)

lemma cumulativeXp_loop_sum:
  "cumulativeXp_loop i lvl tot = tot + sum_list (map xpRequiredForLevel [i..lvl])"
proof (induction i lvl tot rule: cumulativeXp_loop.induct)
  case (1 i lvl tot)
  show ?case
  proof (cases "i \<le> lvl")
    case True
    then show ?thesis
      using "1" by (subst cumulativeXp_loop.simps) (simp add: upto_rec1 [of i lvl])
  next
    case False
    then show ?thesis by (subst cumulativeXp_loop.simps) simp
  qed
qed

lemma cumulativeXpForLevel_sum:
  "cumulativeXpForLevel lvl = (\<Sum>i\<leftarrow>[1..lvl]. xpRequiredForLevel i)"
  by (simp add: cumulativeXpForLevel_def cumulativeXp_loop_sum)

text \<open>
  Walking from level \<open>k\<close> with exactly the XP of the levels \<open>k..L\<close> in hand uses all of
  it and ends one level above \<open>L\<close>.
\<close>

lemma levelFromXp_loop_exact:
  "k \<le> L + 1 \<Longrightarrow> L < MAX_LEVEL \<Longrightarrow> 1 \<le> k \<Longrightarrow>
   levelFromXp_loop k (sum_list (map xpRequiredForLevel [k..L])) = (L + 1, 0)"
proof (induction "nat (L + 1 - k)" arbitrary: k)
  case 0
  then have k: "k = L + 1" by simp
  have pos: "0 < xpRequiredForLevel (L + 1)"
    using xpRequiredForLevel_ge_100 [of "L + 1"] "0.prems" k by simp
  show ?case
    using pos by (subst levelFromXp_loop.simps) (simp add: k)
next
  case (Suc n)
  then have lt: "k \<le> L" and klt: "k < MAX_LEVEL" by simp_all
  have n: "n = nat (L + 1 - (k + 1))" using Suc.hyps(2) by simp
  have ih: "levelFromXp_loop (k + 1) (sum_list (map xpRequiredForLevel [k + 1..L])) = (L + 1, 0)"
    using Suc.hyps(1) [OF n] lt Suc.prems by simp
  have nn: "0 \<le> sum_list (map xpRequiredForLevel [k + 1..L])"
    by (rule sum_list_nonneg) (auto simp: xpRequiredForLevel_nonneg)
  show ?case
    using lt klt ih nn
    by (subst levelFromXp_loop.simps) (simp add: upto_rec1 [of k L] Let_def)
qed

lemma levelFromXp_cumulative:
  assumes "0 \<le> L" "L < MAX_LEVEL"
  shows "level (levelFromXp (cumulativeXpForLevel L)) = L + 1"
    and "currentXp (levelFromXp (cumulativeXpForLevel L)) = 0"
  using levelFromXp_loop_exact [of 1 L] assms
  by (simp_all add: levelFromXp_def cumulativeXpForLevel_sum Let_def)

text \<open>
  At the cap the loop stops whatever is left: walking from level \<open>k\<close> with the XP of the
  levels \<open>k..99\<close> and \<open>R\<close> more ends at level 100 with \<open>R\<close> left.
\<close>

lemma levelFromXp_loop_cap:
  "1 \<le> k \<Longrightarrow> k \<le> MAX_LEVEL \<Longrightarrow> 0 \<le> R \<Longrightarrow>
   levelFromXp_loop k (sum_list (map xpRequiredForLevel [k..MAX_LEVEL - 1]) + R) = (MAX_LEVEL, R)"
proof (induction "nat (MAX_LEVEL - k)" arbitrary: k)
  case 0
  then have k: "k = MAX_LEVEL" by simp
  show ?case
    by (subst levelFromXp_loop.simps) (simp add: k)
next
  case (Suc n)
  then have klt: "k < MAX_LEVEL" by simp
  have n: "n = nat (MAX_LEVEL - (k + 1))" using Suc.hyps(2) by simp
  have ih: "levelFromXp_loop (k + 1)
      (sum_list (map xpRequiredForLevel [k + 1..MAX_LEVEL - 1]) + R) = (MAX_LEVEL, R)"
    using Suc.hyps(1) [OF n] klt Suc.prems by simp
  have nn: "0 \<le> sum_list (map xpRequiredForLevel [k + 1..MAX_LEVEL - 1])"
    by (rule sum_list_nonneg) (auto simp: xpRequiredForLevel_nonneg)
  have unfold: "[k..MAX_LEVEL - 1] = k # [k + 1..MAX_LEVEL - 1]"
    using klt by (simp add: upto_rec1)
  show ?case
    using klt ih nn Suc.prems(3)
    by (subst levelFromXp_loop.simps) (simp add: unfold Let_def add.assoc)
qed

lemma cumulativeXpForLevel_split:
  assumes "MAX_LEVEL \<le> L"
  shows "cumulativeXpForLevel L =
    cumulativeXpForLevel (MAX_LEVEL - 1) + sum_list (map xpRequiredForLevel [MAX_LEVEL..L])"
proof -
  have "[1..L] = [1..MAX_LEVEL - 1] @ [MAX_LEVEL..L]"
    using assms upto_split1 [of 1 MAX_LEVEL L] by (simp add: MAX_LEVEL_def)
  then show ?thesis by (simp add: cumulativeXpForLevel_sum)
qed

lemma levelFromXp_cumulative_cap:
  assumes "MAX_LEVEL \<le> L"
  shows "level (levelFromXp (cumulativeXpForLevel L)) = MAX_LEVEL"
    and "currentXp (levelFromXp (cumulativeXpForLevel L)) =
           cumulativeXpForLevel L - cumulativeXpForLevel (MAX_LEVEL - 1)"
proof -
  let ?R = "sum_list (map xpRequiredForLevel [MAX_LEVEL..L])"
  have R: "0 \<le> ?R"
    by (rule sum_list_nonneg) (auto simp: xpRequiredForLevel_nonneg)
  have "levelFromXp_loop 1 (cumulativeXpForLevel L) = (MAX_LEVEL, ?R)"
    using levelFromXp_loop_cap [of 1 ?R] R cumulativeXpForLevel_split [OF assms]
    by (simp add: cumulativeXpForLevel_sum MAX_LEVEL_def)
  then show "level (levelFromXp (cumulativeXpForLevel L)) = MAX_LEVEL"
    and "currentXp (levelFromXp (cumulativeXpForLevel L)) =
           cumulativeXpForLevel L - cumulativeXpForLevel (MAX_LEVEL - 1)"
    using cumulativeXpForLevel_split [OF assms]
    by (simp_all add: levelFromXp_def Let_def)
qed

lemma cumulativeXpForLevel_1: "cumulativeXpForLevel 1 = 100"
  by (simp add: cumulativeXpForLevel_sum xpRequiredForLevel_1 upto_rec1)

text \<open>
  C2, as the code has it. A child starts at level 1 and \<open>xpRequiredForLevel level\<close> is
  what it takes to leave \<open>level\<close>. So for every level \<open>L \<ge> 1\<close>,
  \<open>levelFromXp (cumulativeXpForLevel L)\<close> has level \<open>L + 1\<close>, capped at \<open>MAX_LEVEL = 100\<close>,
  and \<open>currentXp\<close> is what the levels above 99 contributed: 0 when \<open>L \<le> 99\<close>.
\<close>

theorem levelFromXp_cumulativeXpForLevel:
  assumes "1 \<le> L"
  shows "level (levelFromXp (cumulativeXpForLevel L)) = min (L + 1) 100
       \<and> currentXp (levelFromXp (cumulativeXpForLevel L))
           = cumulativeXpForLevel L - cumulativeXpForLevel (min L 99)"
proof (cases "L < MAX_LEVEL")
  case True
  then show ?thesis
    using assms levelFromXp_cumulative [of L] by (simp add: MAX_LEVEL_def)
next
  case False
  then show ?thesis
    using levelFromXp_cumulative_cap [of L] by (simp add: MAX_LEVEL_def)
qed

theorem levelFromXp_cumulativeXpForLevel_witness:
  "(1::int) \<le> 3 \<and> level (levelFromXp (cumulativeXpForLevel 3)) = 4
     \<and> currentXp (levelFromXp (cumulativeXpForLevel 3)) = 0"
  using levelFromXp_cumulativeXpForLevel [of 3] by simp

text \<open>
  C2, as the claim states it, fails at \<open>L = 1\<close>: with the 100 XP of level 1 the child is
  at level 2, not 1.
\<close>

theorem levelFromXp_cumulativeXpForLevel_1_counterexample:
  "cumulativeXpForLevel 1 = 100 \<and> level (levelFromXp (cumulativeXpForLevel 1)) = 2
   \<and> \<not> (level (levelFromXp (cumulativeXpForLevel 1)) = 1
          \<and> currentXp (levelFromXp (cumulativeXpForLevel 1)) = 0)"
  using levelFromXp_cumulative(1) [of 1] cumulativeXpForLevel_1 by (simp add: MAX_LEVEL_def)

text \<open>The second row of the table in the source: level 2 takes \<open>\<lfloor>282.84\<dots>\<rfloor> = 282\<close> XP.\<close>

lemma xpRequiredForLevel_2: "xpRequiredForLevel 2 = 282"
proof -
  have p: "(2::real) powr (3 / 2) = 2 * sqrt 2"
  proof -
    have "(2::real) powr (3 / 2) = 2 powr (1 + 1 / 2)" by simp
    also have "\<dots> = 2 powr 1 * 2 powr (1 / 2)" by (rule powr_add)
    also have "\<dots> = 2 * sqrt 2" by (simp add: powr_half_sqrt)
    finally show ?thesis .
  qed
  have lo: "141 / 100 \<le> sqrt 2"
    by (rule real_le_rsqrt) (simp add: power2_eq_square)
  have hi: "sqrt 2 < 1415 / 1000"
    by (rule real_less_lsqrt) (simp_all add: power2_eq_square)
  have "\<lfloor>100 * (2 * sqrt 2)\<rfloor> = 282"
    by (rule floor_unique) (use lo hi in simp_all)
  then show ?thesis
    by (simp add: xpRequiredForLevel_def Math_floor_def BASE_XP_def GROWTH_FACTOR_def p)
qed

lemma cumulativeXpForLevel_2: "cumulativeXpForLevel 2 = 382"
  by (simp add: cumulativeXpForLevel_sum xpRequiredForLevel_1 xpRequiredForLevel_2 upto_rec1)

subsection \<open>Streak bonus\<close>

lemma Math_round_nonneg: "0 \<le> x \<Longrightarrow> 0 \<le> Math_round x"
  by (simp add: Math_round_def)

lemma Math_round_nonpos: "x \<le> 0 \<Longrightarrow> Math_round x \<le> 0"
  by (simp add: Math_round_def floor_le_iff)

lemma Math_round_eqI:
  "real_of_int n \<le> x + 1 / 2 \<Longrightarrow> x + 1 / 2 < real_of_int n + 1 \<Longrightarrow> Math_round x = n"
  unfolding Math_round_def by (rule floor_unique)

lemma Math_round_of_int: "Math_round (real_of_int n) = n"
  by (rule Math_round_eqI) simp_all

text \<open>The constants: \<^verbatim>\<open>0.05\<close> is a little above a twentieth, \<^verbatim>\<open>2.5\<close> is exact.\<close>

lemma STREAK_MULTIPLIER_value: "STREAK_MULTIPLIER = 3602879701896397 / 2 ^ 56"
  by (simp add: STREAK_MULTIPLIER_def binary64_eval)

lemma MAX_STREAK_BONUS_value: "MAX_STREAK_BONUS = 5 / 2"
  by (simp add: MAX_STREAK_BONUS_def binary64_eval)

lemma calculateStreakBonus_fields:
  "streakMultiplier (calculateStreakBonus b d)
     = min (add64 1 (mul64 (of_int d) (binary64 (5 / 100)))) (25 / 10)"
  "streakBonus (calculateStreakBonus b d) =
     Math_round (mul64 (of_int b) (sub64 (streakMultiplier (calculateStreakBonus b d)) 1))"
  "milestoneBonus (calculateStreakBonus b d) = (if d \<in> {3, 7, 14, 30, 60, 100} then d * 5 else 0)"
  "totalPoints (calculateStreakBonus b d) =
     b + streakBonus (calculateStreakBonus b d) + milestoneBonus (calculateStreakBonus b d)"
  "basePoints (calculateStreakBonus b d) = b"
  "breakdown (calculateStreakBonus b d) =
     \<lparr>base = b, streak = streakBonus (calculateStreakBonus b d),
      milestone = milestoneBonus (calculateStreakBonus b d)\<rparr>"
  by (simp_all add: calculateStreakBonus_def Let_def MAX_STREAK_BONUS_value STREAK_MULTIPLIER_def
      STREAK_MILESTONES_def)

lemma streakMultiplier_bounds:
  "streakMultiplier (calculateStreakBonus b d) \<le> 25 / 10"
  "0 \<le> d \<Longrightarrow> 1 \<le> streakMultiplier (calculateStreakBonus b d)"
proof -
  show "streakMultiplier (calculateStreakBonus b d) \<le> 25 / 10"
    by (simp add: calculateStreakBonus_fields(1))
  assume d: "0 \<le> d"
  have "0 \<le> real_of_int d * binary64 (5 / 100)"
    using d by (intro mult_nonneg_nonneg binary64_nonneg) simp_all
  then have "0 \<le> mul64 (of_int d) (binary64 (5 / 100))"
    unfolding mul64_def by (rule binary64_nonneg)
  then have "1 \<le> add64 1 (mul64 (of_int d) (binary64 (5 / 100)))"
    unfolding add64_def by (intro binary64_ge_1) simp
  then show "1 \<le> streakMultiplier (calculateStreakBonus b d)"
    by (simp add: calculateStreakBonus_fields(1))
qed

lemma streakBonus_nonneg:
  assumes "0 \<le> b" "0 \<le> d" shows "0 \<le> streakBonus (calculateStreakBonus b d)"
proof -
  let ?m = "streakMultiplier (calculateStreakBonus b d)"
  have "0 \<le> sub64 ?m 1"
    unfolding sub64_def using streakMultiplier_bounds(2) [OF assms(2), of b]
    by (intro binary64_nonneg) simp
  then have "0 \<le> real_of_int b * sub64 ?m 1"
    using assms(1) by (intro mult_nonneg_nonneg) simp_all
  then have "0 \<le> mul64 (of_int b) (sub64 ?m 1)"
    unfolding mul64_def by (rule binary64_nonneg)
  then show ?thesis
    by (simp only: calculateStreakBonus_fields(2) Math_round_nonneg)
qed

lemma streakBonus_nonpos:
  assumes "b \<le> 0" "0 \<le> d" shows "streakBonus (calculateStreakBonus b d) \<le> 0"
proof -
  let ?m = "streakMultiplier (calculateStreakBonus b d)"
  have "0 \<le> sub64 ?m 1"
    unfolding sub64_def using streakMultiplier_bounds(2) [OF assms(2), of b]
    by (intro binary64_nonneg) simp
  then have "real_of_int b * sub64 ?m 1 \<le> 0"
    using assms(1) by (intro mult_nonpos_nonneg) simp_all
  then have "mul64 (of_int b) (sub64 ?m 1) \<le> 0"
    unfolding mul64_def by (rule binary64_nonpos)
  then show ?thesis
    by (simp only: calculateStreakBonus_fields(2) Math_round_nonpos)
qed

lemma milestoneBonus_nonneg: "0 \<le> d \<Longrightarrow> 0 \<le> milestoneBonus (calculateStreakBonus b d)"
  by (simp add: calculateStreakBonus_fields)

lemma totalPoints_ge_base:
  "0 \<le> b \<Longrightarrow> 0 \<le> d \<Longrightarrow> b \<le> totalPoints (calculateStreakBonus b d)"
  using streakBonus_nonneg [of b d] milestoneBonus_nonneg [of d b]
  by (simp add: calculateStreakBonus_fields(4))

text \<open>From day 30 on the multiplier is the cap.\<close>

lemma streakMultiplier_cap:
  assumes "30 \<le> d" shows "streakMultiplier (calculateStreakBonus b d) = 25 / 10"
proof -
  let ?c = "binary64 (5 / 100) :: real"
  have c0: "0 \<le> ?c"
    by (rule binary64_nonneg) simp
  have c30: "3 / 2 \<le> 30 * ?c"
    by (simp add: binary64_eval)
  have "30 * ?c \<le> real_of_int d * ?c"
    using assms c0 by (intro mult_right_mono) simp_all
  with c30 have "3 / 2 \<le> real_of_int d * ?c"
    by (rule order_trans)
  then have "real_of_int (3 * 2 ^ 51) * 2 powi (- 52) \<le> real_of_int d * ?c"
    by (simp add: power_int_minus)
  then have "real_of_int (3 * 2 ^ 51) * 2 powi (- 52) \<le> mul64 (of_int d) ?c"
    unfolding mul64_def by (intro binary64_lower) simp_all
  then have "3 / 2 \<le> mul64 (of_int d) ?c"
    by (simp add: power_int_minus)
  then have "real_of_int (5 * 2 ^ 50) * 2 powi (- 51) \<le> 1 + mul64 (of_int d) ?c"
    by (simp add: power_int_minus)
  then have "real_of_int (5 * 2 ^ 50) * 2 powi (- 51) \<le> add64 1 (mul64 (of_int d) ?c)"
    unfolding add64_def by (intro binary64_lower) simp_all
  then have "5 / 2 \<le> add64 1 (mul64 (of_int d) ?c)"
    by (simp add: power_int_minus)
  then show ?thesis
    by (simp add: calculateStreakBonus_fields(1))
qed

text \<open>
  The doubles against the decimals. Each operation is off by at most \<open>2\<^sup>-\<^sup>5\<^sup>3\<close> of its
  result, so the multiplier in doubles is within \<open>2\<^sup>-\<^sup>5\<^sup>0\<close> of \<open>min (1 + streakDays * 0.05) 2.5\<close>
  in decimals, and the product that is rounded to the streak bonus is within
  \<open>basePoints * 2\<^sup>-\<^sup>5\<^sup>0\<close> of the product in decimals.
\<close>

lemma Math_round_near:
  assumes "\<bar>y - x\<bar> \<le> 1" shows "\<bar>Math_round y - Math_round x\<bar> \<le> 1"
  using assms unfolding Math_round_def by linarith

lemma binary64_near: "\<bar>x\<bar> \<le> B \<Longrightarrow> \<bar>binary64 x - x\<bar> \<le> B / 2 ^ 53"
  using binary64_error [of x] by (simp add: divide_right_mono order_trans)

lemma streakBonus_near_decimal:
  assumes b: "0 \<le> b" and d: "0 \<le> d"
  defines "m \<equiv> streakMultiplier (calculateStreakBonus b d)"
    and "decimal \<equiv> min (1 + real_of_int d * (5 / 100)) (25 / 10)"
  shows "\<bar>m - decimal\<bar> \<le> 1 / 2 ^ 50"
    and "\<bar>mul64 (of_int b) (sub64 m 1) - of_int b * (decimal - 1)\<bar> \<le> of_int b / 2 ^ 50"
proof -
  have both: "\<bar>m - decimal\<bar> \<le> 1 / 2 ^ 50 \<and> \<bar>sub64 m 1 - (decimal - 1)\<bar> \<le> (25 / 4) / 2 ^ 53
      \<and> 0 \<le> sub64 m 1 \<and> sub64 m 1 \<le> 3 / 2"
  proof (cases "30 \<le> d")
    case True
    then have m: "m = 5 / 2"
      unfolding m_def using streakMultiplier_cap [of d b] by simp
    have "30 \<le> real_of_int d" using True by linarith
    then have dec: "decimal = 5 / 2" by (simp add: decimal_def min_def)
    have "sub64 (5 / 2) 1 = 3 / 2" by (simp add: binary64_eval)
    then show ?thesis by (simp add: m dec)
  next
    case False
    define D where "D = real_of_int d"
    define c :: real where "c = binary64 (5 / 100)"
    define p where "p = mul64 D c"
    define s where "s = add64 1 p"
    define t where "t = sub64 s 1"
    have D: "0 \<le> D" "D \<le> 29" using False d by (simp_all add: D_def)
    have c: "c = 1 / 20 + 1 / (5 * 2 ^ 56)"
      by (simp add: c_def binary64_eval)
    have Dc: "D * c = D / 20 + D / (5 * 2 ^ 56)"
      by (simp add: c algebra_simps)
    have "\<bar>D * c\<bar> \<le> 3 / 2" using D unfolding Dc by (simp; argo)
    then have "\<bar>p - D * c\<bar> \<le> (3 / 2) / 2 ^ 53"
      unfolding p_def mul64_def by (rule binary64_near)
    then have p: "\<bar>p - D / 20\<bar> \<le> (9 / 4) / 2 ^ 53"
      using D unfolding Dc by (simp, argo)
    have "\<bar>1 + p\<bar> \<le> 5 / 2" using p D by (simp; argo)
    then have "\<bar>s - (1 + p)\<bar> \<le> (5 / 2) / 2 ^ 53"
      unfolding s_def add64_def by (rule binary64_near)
    then have s: "\<bar>s - (1 + D / 20)\<bar> \<le> (19 / 4) / 2 ^ 53"
      using p by (simp; argo)
    then have "s \<le> 5 / 2" using D by (simp; argo)
    then have m: "m = s"
      unfolding m_def s_def p_def c_def D_def by (simp add: calculateStreakBonus_fields(1))
    have dec: "decimal = 1 + D / 20"
      using D by (simp add: decimal_def D_def)
    have m1: "1 \<le> s"
      unfolding m [symmetric] m_def using d by (rule streakMultiplier_bounds(2))
    have "\<bar>s - 1\<bar> \<le> 3 / 2" using m1 s D by (simp; argo)
    then have "\<bar>t - (s - 1)\<bar> \<le> (3 / 2) / 2 ^ 53"
      unfolding t_def sub64_def by (rule binary64_near)
    then have t: "\<bar>t - D / 20\<bar> \<le> (25 / 4) / 2 ^ 53"
      using s by (simp; argo)
    then have t': "t \<le> 3 / 2"
      using D by (simp; argo)
    have "0 \<le> t"
      unfolding t_def sub64_def using m1 by (intro binary64_nonneg) simp
    then show ?thesis
      using s t t' unfolding m dec t_def [symmetric] by (simp; argo)
  qed
  from both show "\<bar>m - decimal\<bar> \<le> 1 / 2 ^ 50" by simp
  let ?t = "sub64 m 1"
  let ?B = "real_of_int b"
  have B: "0 \<le> ?B" using b by simp
  have "0 \<le> ?B * ?t" using B both by simp
  moreover have "?B * ?t \<le> ?B * (3 / 2)"
    using B both by (intro mult_left_mono) simp_all
  ultimately have "\<bar>?B * ?t\<bar> \<le> ?B * (3 / 2)" by simp
  then have e1: "\<bar>mul64 ?B ?t - ?B * ?t\<bar> \<le> (?B * (3 / 2)) / 2 ^ 53"
    unfolding mul64_def by (rule binary64_near)
  have "\<bar>?B * ?t - ?B * (decimal - 1)\<bar> = ?B * \<bar>?t - (decimal - 1)\<bar>"
    using B by (simp add: abs_mult right_diff_distrib [symmetric] del: right_diff_distrib)
  also have "\<dots> \<le> ?B * ((25 / 4) / 2 ^ 53)"
    using B both by (intro mult_left_mono) simp_all
  finally have e2: "\<bar>?B * ?t - ?B * (decimal - 1)\<bar> \<le> ?B * ((25 / 4) / 2 ^ 53)" .
  have "\<bar>y - x\<bar> \<le> B / 2 ^ 50"
    if "\<bar>y - z\<bar> \<le> (B * (3 / 2)) / 2 ^ 53" "\<bar>z - x\<bar> \<le> B * ((25 / 4) / 2 ^ 53)" "0 \<le> B"
    for x y z B :: real
    using that by (simp; argo)
  from this [OF e1 e2 B]
  show "\<bar>mul64 ?B ?t - ?B * (decimal - 1)\<bar> \<le> ?B / 2 ^ 50" .
qed

text \<open>
  Base 10 on day 3: \<^verbatim>\<open>3 * 0.05\<close> is \<^verbatim>\<open>0.15000000000000002\<close>, \<^verbatim>\<open>1 + 0.15000000000000002\<close> is
  \<^verbatim>\<open>1.15\<close>, \<^verbatim>\<open>1.15 - 1\<close> is \<^verbatim>\<open>0.1499999999999999\<close> and ten times that is
  \<^verbatim>\<open>1.4999999999999991\<close>, which \<^verbatim>\<open>Math.round\<close> takes to 1.
\<close>

lemma calculateStreakBonus_10_3:
  "streakMultiplier (calculateStreakBonus 10 3) = 2589569785738035 / 2 ^ 51"
  "sub64 (streakMultiplier (calculateStreakBonus 10 3)) 1 = 337769972052787 / 2 ^ 51"
  "mul64 10 (sub64 (streakMultiplier (calculateStreakBonus 10 3)) 1) = 1688849860263935 / 2 ^ 50"
  "streakBonus (calculateStreakBonus 10 3) = 1"
  by (simp_all add: calculateStreakBonus_fields(1,2) binary64_eval Math_round_def)

text \<open>
  C3, as the code has it. The formulas are evaluated in doubles, not in exact decimals.
  For \<open>basePoints \<ge> 0\<close> and \<open>streakDays \<ge> 0\<close>: the multiplier is the double
  \<^verbatim>\<open>Math.min(1 + streakDays * 0.05, 2.5)\<close>, it lies between 1 and 2.5 and is 2.5 from day 30
  on; the streak bonus is \<^verbatim>\<open>Math.round\<close> of the double \<^verbatim>\<open>basePoints * (multiplier - 1)\<close>
  and is not negative; the multiplier is within \<open>2\<^sup>-\<^sup>5\<^sup>0\<close> of the decimal
  \<open>min (1 + streakDays * 0.05) 2.5\<close> and, for \<open>basePoints\<close> up to \<open>2\<^sup>3\<^sup>1 - 1\<close>, the streak bonus
  is at most 1 away from the rounded decimal \<open>basePoints * (multiplier - 1)\<close>; the
  milestone bonus is \<open>streakDays * 5\<close> exactly on the days 3, 7,
  14, 30, 60 and 100 (35 on day 7, nothing on day 8); \<open>totalPoints\<close> is the sum of the
  three parts; for every streak of 0 to 200 days and 100 base points the total is at
  least 100 and the multiplier at most 2.5.
\<close>

theorem calculateStreakBonus_spec:
  assumes "0 \<le> basePoints'" and "0 \<le> streakDays"
  shows "streakMultiplier (calculateStreakBonus basePoints' streakDays)
           = min (add64 1 (mul64 (of_int streakDays) (binary64 (5 / 100)))) (25 / 10)
       \<and> 1 \<le> streakMultiplier (calculateStreakBonus basePoints' streakDays)
       \<and> streakMultiplier (calculateStreakBonus basePoints' streakDays) \<le> 25 / 10
       \<and> (30 \<le> streakDays \<longrightarrow>
            streakMultiplier (calculateStreakBonus basePoints' streakDays) = 25 / 10)
       \<and> streakBonus (calculateStreakBonus basePoints' streakDays)
           = Math_round (mul64 (of_int basePoints')
               (sub64 (streakMultiplier (calculateStreakBonus basePoints' streakDays)) 1))
       \<and> 0 \<le> streakBonus (calculateStreakBonus basePoints' streakDays)
       \<and> \<bar>streakMultiplier (calculateStreakBonus basePoints' streakDays)
            - min (1 + real_of_int streakDays * (5 / 100)) (25 / 10)\<bar> \<le> 1 / 2 ^ 50
       \<and> (basePoints' \<le> 2147483647 \<longrightarrow>
            \<bar>streakBonus (calculateStreakBonus basePoints' streakDays)
              - Math_round (real_of_int basePoints'
                  * (min (1 + real_of_int streakDays * (5 / 100)) (25 / 10) - 1))\<bar> \<le> 1)
       \<and> milestoneBonus (calculateStreakBonus basePoints' streakDays)
           = (if streakDays \<in> {3, 7, 14, 30, 60, 100} then streakDays * 5 else 0)
       \<and> totalPoints (calculateStreakBonus basePoints' streakDays)
           = basePoints' + streakBonus (calculateStreakBonus basePoints' streakDays)
               + milestoneBonus (calculateStreakBonus basePoints' streakDays)
       \<and> milestoneBonus (calculateStreakBonus basePoints' 7) = 35
       \<and> milestoneBonus (calculateStreakBonus basePoints' 8) = 0
       \<and> (\<forall>d \<in> {0..200}. 100 \<le> totalPoints (calculateStreakBonus 100 d)
             \<and> streakMultiplier (calculateStreakBonus 100 d) \<le> 25 / 10)"
proof -
  have "\<forall>d \<in> {0..200}. 100 \<le> totalPoints (calculateStreakBonus 100 d)
             \<and> streakMultiplier (calculateStreakBonus 100 d) \<le> 25 / 10"
    using totalPoints_ge_base [of 100] streakMultiplier_bounds(1) [of 100] by simp
  moreover have "1 \<le> streakMultiplier (calculateStreakBonus basePoints' streakDays)"
    using assms(2) by (rule streakMultiplier_bounds(2))
  moreover have "streakMultiplier (calculateStreakBonus basePoints' streakDays) \<le> 25 / 10"
    by (rule streakMultiplier_bounds(1))
  moreover have "30 \<le> streakDays \<longrightarrow>
      streakMultiplier (calculateStreakBonus basePoints' streakDays) = 25 / 10"
    using streakMultiplier_cap [of streakDays basePoints'] by blast
  moreover have "0 \<le> streakBonus (calculateStreakBonus basePoints' streakDays)"
    using assms by (rule streakBonus_nonneg)
  moreover have "\<bar>streakMultiplier (calculateStreakBonus basePoints' streakDays)
      - min (1 + real_of_int streakDays * (5 / 100)) (25 / 10)\<bar> \<le> 1 / 2 ^ 50"
    using assms by (rule streakBonus_near_decimal(1))
  moreover have "basePoints' \<le> 2147483647 \<longrightarrow>
      \<bar>streakBonus (calculateStreakBonus basePoints' streakDays)
        - Math_round (real_of_int basePoints'
            * (min (1 + real_of_int streakDays * (5 / 100)) (25 / 10) - 1))\<bar> \<le> 1"
  proof
    assume "basePoints' \<le> 2147483647"
    then have "real_of_int basePoints' \<le> 2147483647" by linarith
    then have "real_of_int basePoints' / 2 ^ 50 \<le> 1" by simp
    with streakBonus_near_decimal(2) [OF assms]
    have "\<bar>mul64 (of_int basePoints')
          (sub64 (streakMultiplier (calculateStreakBonus basePoints' streakDays)) 1)
        - real_of_int basePoints'
          * (min (1 + real_of_int streakDays * (5 / 100)) (25 / 10) - 1)\<bar> \<le> 1"
      by (rule order_trans)
    then show "\<bar>streakBonus (calculateStreakBonus basePoints' streakDays)
        - Math_round (real_of_int basePoints'
            * (min (1 + real_of_int streakDays * (5 / 100)) (25 / 10) - 1))\<bar> \<le> 1"
      unfolding calculateStreakBonus_fields(2) by (rule Math_round_near)
  qed
  moreover have "milestoneBonus (calculateStreakBonus basePoints' 7) = 35"
    "milestoneBonus (calculateStreakBonus basePoints' 8) = 0"
    by (simp_all add: calculateStreakBonus_fields(3))
  ultimately show ?thesis
    using calculateStreakBonus_fields(1,2,3,4) [of basePoints' streakDays] by blast
qed

theorem calculateStreakBonus_spec_witness:
  "(0::int) \<le> 10 \<and> (0::int) \<le> 3 \<and> (0::int) \<le> 100 \<and> (30::int) \<le> 30 \<and> (30::int) \<in> {0..200}
   \<and> (10::int) \<le> 2147483647
   \<and> streakMultiplier (calculateStreakBonus 10 3) = 2589569785738035 / 2 ^ 51
   \<and> streakBonus (calculateStreakBonus 10 3) = 1
   \<and> \<bar>streakBonus (calculateStreakBonus 10 3)
        - Math_round (10 * (min (1 + 3 * (5 / 100)) (25 / 10) - 1))\<bar> \<le> 1
   \<and> milestoneBonus (calculateStreakBonus 10 3) = 15
   \<and> totalPoints (calculateStreakBonus 10 3) = 26
   \<and> streakMultiplier (calculateStreakBonus 100 30) = 25 / 10
   \<and> milestoneBonus (calculateStreakBonus 100 30) = 150
   \<and> 100 \<le> totalPoints (calculateStreakBonus 100 30)"
proof -
  have a: "(0::int) \<le> 10" "(0::int) \<le> 3" "(0::int) \<le> 100" "(0::int) \<le> 30"
    by simp_all
  note s3 = calculateStreakBonus_spec [OF a(1) a(2)]
  note s30 = calculateStreakBonus_spec [OF a(3) a(4)]
  have m: "mul64 10 (sub64 (streakMultiplier (calculateStreakBonus 10 3)) 1)
      = 1688849860263935 / 2 ^ 50"
    by (rule calculateStreakBonus_10_3(3))
  have r: "Math_round (1688849860263935 / 2 ^ 50) = 1"
    by (rule Math_round_eqI) simp_all
  have s: "streakBonus (calculateStreakBonus 10 3) = 1"
    using s3 [THEN conjunct2, THEN conjunct2, THEN conjunct2, THEN conjunct2, THEN conjunct1]
    by (simp only: of_int_numeral m r)
  from s3 have "(10::int) \<le> 2147483647 \<longrightarrow>
      \<bar>streakBonus (calculateStreakBonus 10 3)
        - Math_round (real_of_int 10 * (min (1 + real_of_int 3 * (5 / 100)) (25 / 10) - 1))\<bar> \<le> 1"
    by blast
  then have n: "\<bar>streakBonus (calculateStreakBonus 10 3)
        - Math_round (10 * (min (1 + 3 * (5 / 100)) (25 / 10) - 1))\<bar> \<le> 1"
    by simp
  have ms: "milestoneBonus (calculateStreakBonus 10 3) = 15"
    using s3 by simp
  have t: "totalPoints (calculateStreakBonus 10 3) = 26"
    using s3 s ms by simp
  have c: "streakMultiplier (calculateStreakBonus 100 30) = 25 / 10"
    using s30 by simp
  have ms': "milestoneBonus (calculateStreakBonus 100 30) = 150"
    using s30 by simp
  from s30 have "\<forall>d \<in> {0..200}. 100 \<le> totalPoints (calculateStreakBonus 100 d)
      \<and> streakMultiplier (calculateStreakBonus 100 d) \<le> 25 / 10"
    by blast
  then have t': "100 \<le> totalPoints (calculateStreakBonus 100 30)"
    by simp
  show ?thesis
    using calculateStreakBonus_10_3(1) s n ms t c ms' t' by simp
qed

text \<open>
  C3, as the claim states it, fails: in exact decimals the multiplier on day 3 is 1.15
  and the streak bonus of 10 base points is the rounded 1.5, which is 2, for a total of
  27; the code returns a streak bonus of 1 and a total of 26.
\<close>

theorem calculateStreakBonus_decimal_counterexample:
  "Math_round (10 * (min (1 + 3 * (5 / 100)) (25 / 10) - 1)) = 2
   \<and> streakBonus (calculateStreakBonus 10 3) = 1
   \<and> milestoneBonus (calculateStreakBonus 10 3) = 15
   \<and> totalPoints (calculateStreakBonus 10 3) = 26"
  by (simp add: calculateStreakBonus_fields(3,4) calculateStreakBonus_10_3 Math_round_def)

subsection \<open>Negative input\<close>

lemma cumulativeXpForLevel_nonpos: "lvl \<le> 0 \<Longrightarrow> cumulativeXpForLevel lvl = 0"
  by (simp add: cumulativeXpForLevel_def cumulativeXp_loop.simps)

text \<open>
  The division by the milliseconds of an hour rounds, and rounding keeps the order: 48
  hours or more in milliseconds are 48 hours or more as a double.
\<close>

lemma hoursEarly_48:
  assumes "172800000 \<le> dueDate - completedAt"
  shows "48 \<le> div64 (of_int (dueDate - completedAt)) (1000 * 60 * 60)"
proof -
  have "48 * 3600000 \<le> real_of_int (dueDate - completedAt)"
    using assms by linarith
  then have "48 \<le> real_of_int (dueDate - completedAt) / (1000 * 60 * 60)"
    by (simp add: le_divide_eq)
  then have "real_of_int (3 * 2 ^ 51) * 2 powi (- 47)
      \<le> real_of_int (dueDate - completedAt) / (1000 * 60 * 60)"
    by (simp add: power_int_minus)
  then have "real_of_int (3 * 2 ^ 51) * 2 powi (- 47)
      \<le> div64 (of_int (dueDate - completedAt)) (1000 * 60 * 60)"
    unfolding div64_def by (intro binary64_lower) simp_all
  then show ?thesis
    by (simp add: power_int_minus)
qed

lemma calculateEarlyCompletionBonus_48h:
  assumes "172800000 \<le> dueDate - completedAt"
  shows "calculateEarlyCompletionBonus b dueDate completedAt
    = Math_round (mul64 (of_int b) (binary64 (25 / 100)))"
proof -
  have "\<not> dueDate \<le> completedAt" using assms by simp
  then show ?thesis
    using hoursEarly_48 [OF assms]
    by (simp add: calculateEarlyCompletionBonus_def Let_def)
qed

text \<open>
  C9, as the code has it. None of the core functions checks its numbers: whatever the
  sign of \<open>basePoints\<close> and \<open>streakDays\<close>, \<open>calculateStreakBonus\<close> returns the double
  \<^verbatim>\<open>Math.min(1 + streakDays * 0.05, 2.5)\<close> as multiplier, \<^verbatim>\<open>Math.round\<close> of the double
  \<^verbatim>\<open>basePoints * (multiplier - 1)\<close> as streak bonus, a streak bonus that is not positive
  for negative \<open>basePoints\<close> on a streak that is not negative, and the total;
  \<open>calculateEarlyCompletionBonus\<close> returns \<^verbatim>\<open>Math.round(basePoints * 0.25)\<close> 48 hours
  before the due date; \<open>xpRequiredForLevel\<close> and \<open>cumulativeXpForLevel\<close> return 0 for a
  level below 0.
\<close>

theorem negative_input_is_computed:
  "streakMultiplier (calculateStreakBonus b d)
     = min (add64 1 (mul64 (of_int d) (binary64 (5 / 100)))) (25 / 10)
   \<and> streakBonus (calculateStreakBonus b d)
       = Math_round (mul64 (of_int b)
           (sub64 (min (add64 1 (mul64 (of_int d) (binary64 (5 / 100)))) (25 / 10)) 1))
   \<and> (b \<le> 0 \<and> 0 \<le> d \<longrightarrow> streakBonus (calculateStreakBonus b d) \<le> 0)
   \<and> totalPoints (calculateStreakBonus b d)
       = b + streakBonus (calculateStreakBonus b d)
           + (if d \<in> {3, 7, 14, 30, 60, 100} then d * 5 else 0)
   \<and> (172800000 \<le> dueDate - completedAt \<longrightarrow>
        calculateEarlyCompletionBonus b dueDate completedAt
          = Math_round (mul64 (of_int b) (binary64 (25 / 100))))
   \<and> (lvl < 0 \<longrightarrow> xpRequiredForLevel lvl = 0 \<and> cumulativeXpForLevel lvl = 0)"
  using calculateEarlyCompletionBonus_48h [of dueDate completedAt b] streakBonus_nonpos [of b d]
  by (simp add: calculateStreakBonus_fields xpRequiredForLevel_nonpos cumulativeXpForLevel_nonpos)

text \<open>
  Base \<open>- 10\<close> on day 7: \<^verbatim>\<open>7 * 0.05\<close> is \<^verbatim>\<open>0.35000000000000003\<close>, the multiplier is \<^verbatim>\<open>1.35\<close>,
  \<^verbatim>\<open>1.35 - 1\<close> is \<^verbatim>\<open>0.3500000000000001\<close> and \<open>- 10\<close> times that is \<^verbatim>\<open>-3.500000000000001\<close>,
  which \<^verbatim>\<open>Math.round\<close> takes to \<open>- 4\<close>.
\<close>

lemma calculateStreakBonus_minus_10_7:
  "min (add64 1 (mul64 7 (binary64 (5 / 100)))) (25 / 10) = 6079859496950170 / 2 ^ 52"
  "mul64 (- 10) (sub64 (6079859496950170 / 2 ^ 52) 1) = - (3940649673949185 / 2 ^ 50)"
  "Math_round (- (3940649673949185 / 2 ^ 50)) = - 4"
  "Math_round (mul64 (- 100) (binary64 (25 / 100))) = - 25"
  by (simp_all add: binary64_eval Math_round_def)

theorem negative_input_is_computed_witness:
  "(- 10::int) \<le> 0 \<and> (0::int) \<le> 7 \<and> (172800000::int) \<le> 172800000 - 0 \<and> (- 1::int) < 0
   \<and> calculateEarlyCompletionBonus (- 100) 172800000 0 = - 25
   \<and> xpRequiredForLevel (- 1) = 0 \<and> cumulativeXpForLevel (- 1) = 0
   \<and> streakMultiplier (calculateStreakBonus (- 10) 7) = 6079859496950170 / 2 ^ 52
   \<and> streakBonus (calculateStreakBonus (- 10) 7) = - 4
   \<and> totalPoints (calculateStreakBonus (- 10) 7) = 21"
proof -
  note t = negative_input_is_computed
    [where b = "- 10" and d = 7 and lvl = "- 1"]
  note e = negative_input_is_computed
    [where b = "- 100" and dueDate = 172800000 and completedAt = 0]
  have m: "streakMultiplier (calculateStreakBonus (- 10) 7) = 6079859496950170 / 2 ^ 52"
    using t [THEN conjunct1] by (simp only: of_int_numeral calculateStreakBonus_minus_10_7(1))
  have s: "streakBonus (calculateStreakBonus (- 10) 7) = - 4"
    using t [THEN conjunct2, THEN conjunct1]
    by (simp only: of_int_numeral of_int_minus calculateStreakBonus_minus_10_7)
  have p: "totalPoints (calculateStreakBonus (- 10) 7) = 21"
    using t s by simp
  have x: "xpRequiredForLevel (- 1) = 0 \<and> cumulativeXpForLevel (- 1) = 0"
    using t by simp
  have b: "calculateEarlyCompletionBonus (- 100) 172800000 0 = - 25"
    using e calculateStreakBonus_minus_10_7(4) by simp
  show ?thesis
    using m s p x b by simp
qed

lemma calculateStreakBonus_minus_20_5:
  "streakMultiplier (calculateStreakBonus (- 20) 5) = 5 / 4"
  "streakBonus (calculateStreakBonus (- 20) 5) = - 5"
  by (simp_all add: calculateStreakBonus_fields(1,2) binary64_eval Math_round_def)

text \<open>
  C9, as the claim states it, fails: no function has a failure result, and for negative
  \<open>basePoints = - 20\<close> on day 5 \<open>calculateStreakBonus\<close> returns a computed breakdown, with
  a streak bonus of \<open>- 5\<close> and \<open>- 25\<close> points in total.
\<close>

theorem calculateStreakBonus_negative_counterexample:
  "calculateStreakBonus (- 20) 5 =
     \<lparr>basePoints = - 20, streakMultiplier = 5 / 4, streakBonus = - 5, milestoneBonus = 0,
      totalPoints = - 25, breakdown = \<lparr>base = - 20, streak = - 5, milestone = 0\<rparr>\<rparr>"
proof -
  have "calculateStreakBonus (- 20) 5 =
     \<lparr>basePoints = basePoints (calculateStreakBonus (- 20) 5),
      streakMultiplier = streakMultiplier (calculateStreakBonus (- 20) 5),
      streakBonus = streakBonus (calculateStreakBonus (- 20) 5),
      milestoneBonus = milestoneBonus (calculateStreakBonus (- 20) 5),
      totalPoints = totalPoints (calculateStreakBonus (- 20) 5),
      breakdown = breakdown (calculateStreakBonus (- 20) 5)\<rparr>"
    by simp
  also have "\<dots> = \<lparr>basePoints = - 20, streakMultiplier = 5 / 4, streakBonus = - 5,
      milestoneBonus = 0, totalPoints = - 25,
      breakdown = \<lparr>base = - 20, streak = - 5, milestone = 0\<rparr>\<rparr>"
    by (simp add: calculateStreakBonus_fields(3,4,5,6) calculateStreakBonus_minus_20_5)
  finally show ?thesis .
qed

subsection \<open>Streaks\<close>

text \<open>In a zone without clock changes a local calendar day is 24 hours.\<close>

lemma setDate_minus_fixed_offset:
  "fixed_offset zone \<Longrightarrow> setDate_minus zone date n = date - n * MS_PER_DAY"
  by (simp add: setDate_minus_def LocalTime_def UTC_def fixed_offset_def)

lemma getStreakDay_previous:
  assumes "fixed_offset zone"
  shows "getStreakDay config (setDate_minus zone checkDate 1) = getStreakDay config checkDate - 1"
proof -
  have "(x - MS_PER_DAY) div MS_PER_DAY = x div MS_PER_DAY - 1" for x
    using div_add_self2 [of MS_PER_DAY "x - MS_PER_DAY"] by (simp add: MS_PER_DAY_def)
  from this [of "checkDate - gracePeriodHours config * 60 * 60 * 1000"]
  show ?thesis
    by (simp add: getStreakDay_def setDate_minus_fixed_offset [OF assms] toISODate_def Let_def
        algebra_simps)
qed

text \<open>The three branches of the loop.\<close>

lemma streak_loop_hit:
  "minimumTasksPerDay config \<le> get_or_0 byDay (getStreakDay config checkDate) \<Longrightarrow>
   streak_loop zone config byDay now checkDate s
     = streak_loop zone config byDay now (setDate_minus zone checkDate 1) (s + 1)"
  by (subst streak_loop.simps) (simp add: Let_def)

lemma streak_loop_skip:
  "get_or_0 byDay (getStreakDay config checkDate) < minimumTasksPerDay config \<Longrightarrow>
   s = 0 \<Longrightarrow> getStreakDay config checkDate = getStreakDay config now \<Longrightarrow>
   streak_loop zone config byDay now checkDate s
     = streak_loop zone config byDay now (setDate_minus zone checkDate 1) s"
  by (subst streak_loop.simps) (simp add: Let_def isToday_def)

lemma streak_loop_stop:
  "get_or_0 byDay (getStreakDay config checkDate) < minimumTasksPerDay config \<Longrightarrow>
   s \<noteq> 0 \<or> getStreakDay config checkDate \<noteq> getStreakDay config now \<Longrightarrow>
   streak_loop zone config byDay now checkDate s = Some s"
  by (subst streak_loop.simps) (auto simp add: Let_def isToday_def)

text \<open>
  A run of \<open>n\<close> days that meet the minimum, followed by a day that does not and that is
  not a skipped today, adds \<open>n\<close> to the streak and ends the loop.
\<close>

lemma streak_loop_run:
  assumes zone: "fixed_offset zone"
    and "\<forall>i<n. minimumTasksPerDay config \<le> get_or_0 byDay (getStreakDay config checkDate - int i)"
    and "get_or_0 byDay (getStreakDay config checkDate - int n) < minimumTasksPerDay config"
    and "0 < s \<or> getStreakDay config checkDate - int n \<noteq> getStreakDay config now"
    and "0 \<le> s"
  shows "streak_loop zone config byDay now checkDate s = Some (s + int n)"
  using assms
proof (induction n arbitrary: checkDate s)
  case 0
  then show ?case
    using streak_loop_stop [where byDay = byDay and config = config and checkDate = checkDate
        and s = s and now = now and zone = zone] by auto
next
  case (Suc n)
  let ?prev = "setDate_minus zone checkDate 1"
  note prev = getStreakDay_previous [OF zone]
  have hit: "minimumTasksPerDay config \<le> get_or_0 byDay (getStreakDay config checkDate)"
    using Suc.prems(2) by force
  have run: "\<forall>i<n. minimumTasksPerDay config \<le> get_or_0 byDay (getStreakDay config ?prev - int i)"
  proof (intro allI impI)
    fix i assume "i < n"
    then have "Suc i < Suc n" by simp
    from Suc.prems(2) [rule_format, OF this]
    show "minimumTasksPerDay config \<le> get_or_0 byDay (getStreakDay config ?prev - int i)"
      by (simp add: prev algebra_simps)
  qed
  have stop: "get_or_0 byDay (getStreakDay config ?prev - int n) < minimumTasksPerDay config"
    using Suc.prems(3) by (simp add: prev algebra_simps)
  have "streak_loop zone config byDay now ?prev (s + 1) = Some (s + 1 + int n)"
    using Suc.IH [of ?prev "s + 1"] zone run stop Suc.prems(5) by simp
  then show ?case
    using streak_loop_hit [OF hit, where now = now and s = s and zone = zone] by simp
qed

text \<open>Going back from any day, a finite history runs out.\<close>

lemma run_exists:
  assumes "finite (dom byDay)" and "1 \<le> required"
  shows "\<exists>n. (\<forall>i<n. required \<le> get_or_0 byDay (d - int i)) \<and> get_or_0 byDay (d - int n) < required"
proof -
  let ?P = "\<lambda>k. get_or_0 byDay (d - int k) < required"
  obtain lb where lb: "\<forall>x \<in> dom byDay. lb \<le> x"
  proof (cases "dom byDay = {}")
    case True
    then show ?thesis using that [of 0] by simp
  next
    case False
    then show ?thesis using that [of "Min (dom byDay)"] assms(1) by simp
  qed
  have "d - int (nat (d - lb + 1)) \<notin> dom byDay"
    using lb by (cases "d - lb + 1 \<ge> 0") force+
  then have "?P (nat (d - lb + 1))"
    using assms(2) by (simp add: get_or_0_def domIff)
  then have ex: "\<exists>k. ?P k" ..
  have "?P (LEAST k. ?P k)" using ex by (rule LeastI_ex)
  moreover have "\<forall>i<(LEAST k. ?P k). required \<le> get_or_0 byDay (d - int i)"
    using not_less_Least [of _ ?P] by (auto simp: not_less)
  ultimately show ?thesis by blast
qed

lemma finite_dom_group_by_streak_day:
  "finite (dom m) \<Longrightarrow> finite (dom (group_by_streak_day config ts m))"
  by (induction ts arbitrary: m) (simp_all add: Let_def)

lemma finite_dom_completionsByDay:
  "finite (dom (completionsByDay zone config db childId now))"
  by (simp add: completionsByDay_def Let_def finite_dom_group_by_streak_day)

lemma get_or_0_group_by_streak_day:
  "get_or_0 (group_by_streak_day config ts m) d
     = get_or_0 m d + int (length (filter (\<lambda>t. getStreakDay config t = d) ts))"
  by (induction ts arbitrary: m) (simp_all add: Let_def get_or_0_def)

lemma streak_loop_from_today:
  fixes config :: StreakConfig and byDay :: "int \<rightharpoonup> int" and now :: timestamp
  assumes zone: "fixed_offset zone"
    and fin: "finite (dom byDay)" and req: "1 \<le> minimumTasksPerDay config"
  defines "cnt \<equiv> get_or_0 byDay" and "today \<equiv> getStreakDay config now"
  defines "start \<equiv> (if minimumTasksPerDay config \<le> cnt today then today else today - 1)"
  shows "\<exists>n. streak_loop zone config byDay now now 0 = Some (int n)
          \<and> (\<forall>i<n. minimumTasksPerDay config \<le> cnt (start - int i))
          \<and> cnt (start - int n) < minimumTasksPerDay config"
proof (cases "minimumTasksPerDay config \<le> cnt today")
  case True
  then have start: "start = today" by (simp add: start_def)
  obtain n where n: "\<forall>i<n. minimumTasksPerDay config \<le> get_or_0 byDay (today - int i)"
      "get_or_0 byDay (today - int n) < minimumTasksPerDay config"
    using run_exists [OF fin req, of today] by blast
  have "n \<noteq> 0"
  proof
    assume "n = 0"
    then show False using True n(2) by (simp add: cnt_def)
  qed
  then have "streak_loop zone config byDay now now 0 = Some (0 + int n)"
    using n zone by (intro streak_loop_run) (simp_all add: today_def)
  then show ?thesis using n start by (auto simp: cnt_def)
next
  case False
  then have start: "start = today - 1" by (simp add: start_def)
  obtain n where n: "\<forall>i<n. minimumTasksPerDay config \<le> get_or_0 byDay (today - 1 - int i)"
      "get_or_0 byDay (today - 1 - int n) < minimumTasksPerDay config"
    using run_exists [OF fin req, of "today - 1"] by blast
  have skip: "streak_loop zone config byDay now now 0
      = streak_loop zone config byDay now (setDate_minus zone now 1) 0"
    using False by (intro streak_loop_skip) (simp_all add: cnt_def today_def)
  have "streak_loop zone config byDay now (setDate_minus zone now 1) 0 = Some (0 + int n)"
    using n zone by (intro streak_loop_run) (simp_all add: getStreakDay_previous today_def)
  then show ?thesis using n start skip by (auto simp: cnt_def)
qed

lemma length_filter_map_filter:
  "length (filter P (List.map_filter f xs))
     = length (filter (\<lambda>x. case f x of None \<Rightarrow> False | Some y \<Rightarrow> P y) xs)"
  by (induction xs) (auto simp: List.map_filter_simps split: option.splits)

lemma length_filter_rev_sort:
  "length (filter P (rev (sort xs))) = length (filter P xs)"
proof -
  have "mset (filter P (rev (sort xs))) = mset (filter P xs)"
    by (simp only: mset_filter mset_rev mset_sort)
  then show ?thesis by (rule mset_eq_length)
qed

text \<open>
  The map \<^verbatim>\<open>completionsByDay\<close> counts, for each streak-day, the child's approved
  assignments of the last 90 days that fall on it.
\<close>

lemma completionsByDay_count:
  "get_or_0 (completionsByDay zone config db childId now) day =
     int (length (filter
       (\<lambda>a. ta_child_id a = childId \<and> ta_status a = ''approved''
            \<and> (case approved_at a of
                  None \<Rightarrow> False
                | Some t \<Rightarrow> setDate_minus zone now 90 \<le> t \<and> getStreakDay config t = day))
       (taskAssignments db)))"
proof -
  let ?f = "\<lambda>a. if ta_child_id a = childId \<and> ta_status a = ''approved''
               then (case approved_at a of None \<Rightarrow> None
                     | Some t \<Rightarrow> if setDate_minus zone now 90 \<le> t then Some t else None)
               else None"
  let ?P = "\<lambda>t. getStreakDay config t = day"
  have eq: "(case ?f a of None \<Rightarrow> False | Some t \<Rightarrow> ?P t)
      = (ta_child_id a = childId \<and> ta_status a = ''approved''
            \<and> (case approved_at a of
                  None \<Rightarrow> False
                | Some t \<Rightarrow> setDate_minus zone now 90 \<le> t \<and> getStreakDay config t = day))" for a
    by (cases "approved_at a") auto
  have "get_or_0 (completionsByDay zone config db childId now) day
      = get_or_0 Map.empty day
        + int (length (filter ?P (find_approved_since db childId (setDate_minus zone now 90))))"
    by (simp only: completionsByDay_def Let_def get_or_0_group_by_streak_day)
  also have "\<dots> = int (length (filter ?P (List.map_filter ?f (taskAssignments db))))"
    by (simp add: get_or_0_def find_approved_since_def length_filter_rev_sort)
  also have "\<dots> = int (length (filter
      (\<lambda>a. case ?f a of None \<Rightarrow> False | Some t \<Rightarrow> ?P t) (taskAssignments db)))"
    by (simp only: length_filter_map_filter)
  finally show ?thesis
    by (simp only: eq)
qed

lemma calculateStreak_Some:
  assumes "streak_loop zone config (completionsByDay zone config db childId now) now now 0 = Some s"
  shows "calculateStreak zone config db childId now =
     Some \<lparr>currentStreak = s,
           streakAtRisk = (0 < s \<and> get_or_0 (completionsByDay zone config db childId now)
                              (getStreakDay config now) < minimumTasksPerDay config),
           completedToday = get_or_0 (completionsByDay zone config db childId now)
                              (getStreakDay config now),
           requiredDaily = minimumTasksPerDay config\<rparr>"
  using assms by (simp add: calculateStreak_def Let_def)

text \<open>
  C4, as the code has it. In a process zone without clock changes (such as UTC) and with
  \<open>minimumTasksPerDay \<ge> 1\<close> the walk ends, and: it starts at today's streak-day if today
  meets the minimum and at the day before otherwise (today below the minimum, with zero
  completions or more, is skipped without breaking the streak); \<open>currentStreak\<close> is the
  number of consecutive days back from there that meet the minimum, the next day back
  being below it; \<open>streakAtRisk\<close> is true exactly when \<open>currentStreak > 0\<close> and today's count
  is below the minimum. In particular, for a minimum of 1 and one completion on each of
  today, the day before and the day before that, and none on the day before those,
  \<open>currentStreak = 3\<close> and \<open>streakAtRisk\<close> is false.
\<close>

theorem calculateStreak_walk:
  assumes "fixed_offset zone" and "1 \<le> minimumTasksPerDay config"
  shows "\<exists>r. calculateStreak zone config db childId now = Some r \<and>
     (let cnt = get_or_0 (completionsByDay zone config db childId now);
          today = getStreakDay config now;
          required = minimumTasksPerDay config;
          start = (if required \<le> cnt today then today else today - 1)
      in 0 \<le> currentStreak r
       \<and> (\<forall>i. 0 \<le> i \<and> i < currentStreak r \<longrightarrow> required \<le> cnt (start - i))
       \<and> cnt (start - currentStreak r) < required
       \<and> streakAtRisk r = (0 < currentStreak r \<and> cnt today < required)
       \<and> completedToday r = cnt today
       \<and> requiredDaily r = required
       \<and> (required = 1 \<and> cnt today = 1 \<and> cnt (today - 1) = 1 \<and> cnt (today - 2) = 1
            \<and> cnt (today - 3) = 0
          \<longrightarrow> currentStreak r = 3 \<and> \<not> streakAtRisk r))"
proof -
  let ?byDay = "completionsByDay zone config db childId now"
  let ?cnt = "get_or_0 ?byDay"
  let ?today = "getStreakDay config now"
  let ?req = "minimumTasksPerDay config"
  let ?start = "if ?req \<le> ?cnt ?today then ?today else ?today - 1"
  obtain n where loop: "streak_loop zone config ?byDay now now 0 = Some (int n)"
    and run: "\<forall>i<n. ?req \<le> ?cnt (?start - int i)"
    and stop: "?cnt (?start - int n) < ?req"
    using streak_loop_from_today [where byDay = ?byDay and config = config and now = now,
        OF assms(1) finite_dom_completionsByDay assms(2)]
    by blast
  let ?r = "\<lparr>currentStreak = int n,
             streakAtRisk = (0 < int n \<and> ?cnt ?today < ?req),
             completedToday = ?cnt ?today, requiredDaily = ?req\<rparr>"
  have res: "calculateStreak zone config db childId now = Some ?r"
    using calculateStreak_Some [OF loop] .
  have run': "\<forall>i. 0 \<le> i \<and> i < int n \<longrightarrow> ?req \<le> ?cnt (?start - i)"
  proof (intro allI impI)
    fix i :: int assume i: "0 \<le> i \<and> i < int n"
    then have "nat i < n" by linarith
    from run [rule_format, OF this] i show "?req \<le> ?cnt (?start - i)" by simp
  qed
  have three: "int n = 3 \<and> \<not> (0 < int n \<and> ?cnt ?today < ?req)"
    if h: "?req = 1 \<and> ?cnt ?today = 1 \<and> ?cnt (?today - 1) = 1 \<and> ?cnt (?today - 2) = 1
            \<and> ?cnt (?today - 3) = 0"
  proof -
    have start: "?start = ?today" using h by simp
    have "\<not> 3 < n"
    proof
      assume "3 < n"
      from run [rule_format, OF this] show False using h start by simp
    qed
    moreover have "n \<noteq> 0"
    proof
      assume "n = 0"
      then show False using stop h start by simp
    qed
    moreover have "n \<noteq> 1"
    proof
      assume "n = 1"
      then show False using stop h start by simp
    qed
    moreover have "n \<noteq> 2"
    proof
      assume "n = 2"
      then show False using stop h start by simp
    qed
    ultimately have "n = 3" by linarith
    then show ?thesis using h by simp
  qed
  show ?thesis
    apply (rule exI [of _ ?r])
    apply (simp only: res Let_def)
    using run' stop three
    apply simp
    done
qed

lemmas streak_eval =
  completionsByDay_def find_approved_since_def List.map_filter_simps get_or_0_def
  getStreakDay_def toISODate_def MS_PER_DAY_def setDate_minus_def LocalTime_def UTC_def
  zone_UTC_def zone_New_York_def Let_def approved_row_def history_db_def

lemma fixed_offset_zone_UTC: "fixed_offset zone_UTC"
  by (simp add: fixed_offset_def zone_UTC_def)

text \<open>
  At 18:00 UTC on day 20000, in the zone UTC, after one completion on each of the last
  three days.
\<close>

theorem calculateStreak_walk_witness:
  "fixed_offset zone_UTC \<and> 1 \<le> minimumTasksPerDay DEFAULT_CONFIG
   \<and> (\<exists>r. calculateStreak zone_UTC DEFAULT_CONFIG three_day_history ''kid'' 1728064800000 = Some r
          \<and> currentStreak r = 3 \<and> \<not> streakAtRisk r)"
proof -
  note t = calculateStreak_walk
    [where zone = zone_UTC and config = DEFAULT_CONFIG and db = three_day_history
      and childId = "''kid''" and now = 1728064800000]
  have req: "1 \<le> minimumTasksPerDay DEFAULT_CONFIG"
    by (simp add: DEFAULT_CONFIG_def)
  have byDay: "completionsByDay zone_UTC DEFAULT_CONFIG three_day_history ''kid'' 1728064800000
      = [20000 \<mapsto> 1, 19999 \<mapsto> 1, 19998 \<mapsto> 1]"
    by (simp add: streak_eval DEFAULT_CONFIG_def three_day_history_def)
  have today: "getStreakDay DEFAULT_CONFIG 1728064800000 = 20000"
    by (simp add: streak_eval DEFAULT_CONFIG_def)
  have m: "minimumTasksPerDay DEFAULT_CONFIG = 1"
    by (simp add: DEFAULT_CONFIG_def)
  from t [OF fixed_offset_zone_UTC req]
  have "\<exists>r. calculateStreak zone_UTC DEFAULT_CONFIG three_day_history ''kid'' 1728064800000
      = Some r \<and> currentStreak r = 3 \<and> \<not> streakAtRisk r"
    by (simp add: byDay today m Let_def get_or_0_def) blast
  then show ?thesis using req fixed_offset_zone_UTC by simp
qed

text \<open>
  C4, as the claim states it, fails where the minimum is 2 and today has one completion:
  today is neither a day with zero completions nor a day that meets the minimum, so the
  claim has the walk stop there with a streak of 0. The code, in the zone UTC, skips
  today, counts yesterday's two completions and returns a streak of 1, at risk.
\<close>

theorem calculateStreak_partial_today_counterexample:
  "calculateStreak zone_UTC \<lparr>gracePeriodHours = 4, timezoneOffset = 0, minimumTasksPerDay = 2\<rparr>
     partial_today_history ''kid'' 1728064800000
   = Some \<lparr>currentStreak = 1, streakAtRisk = True, completedToday = 1, requiredDaily = 2\<rparr>"
proof -
  let ?config = "\<lparr>gracePeriodHours = 4, timezoneOffset = 0, minimumTasksPerDay = 2\<rparr>"
  let ?byDay = "[20000 \<mapsto> 1, 19999 \<mapsto> 2 :: int]"
  note prev = getStreakDay_previous [OF fixed_offset_zone_UTC]
  have byDay: "completionsByDay zone_UTC ?config partial_today_history ''kid'' 1728064800000
      = ?byDay"
    by (simp add: streak_eval partial_today_history_def)
  have today: "getStreakDay ?config 1728064800000 = 20000"
    by (simp add: streak_eval)
  have "streak_loop zone_UTC ?config ?byDay 1728064800000 1728064800000 0
      = streak_loop zone_UTC ?config ?byDay 1728064800000
          (setDate_minus zone_UTC 1728064800000 1) 0"
    by (rule streak_loop_skip) (simp_all add: today get_or_0_def)
  also have "\<dots> = streak_loop zone_UTC ?config ?byDay 1728064800000
      (setDate_minus zone_UTC (setDate_minus zone_UTC 1728064800000 1) 1) (0 + 1)"
    by (rule streak_loop_hit) (simp add: prev today get_or_0_def)
  also have "\<dots> = Some (0 + 1)"
    by (rule streak_loop_stop) (simp_all add: prev today get_or_0_def)
  finally have loop: "streak_loop zone_UTC ?config
      (completionsByDay zone_UTC ?config partial_today_history ''kid'' 1728064800000)
      1728064800000 1728064800000 0 = Some 1"
    by (simp add: byDay)
  show ?thesis
    using calculateStreak_Some [OF loop] by (simp add: byDay today get_or_0_def)
qed

text \<open>
  Where the clock of the process zone changes, a step of one local calendar day is not
  24 hours and the walk can pass over a streak-day. In New York at 04:30 UTC on
  2024-11-04, which is 23:30 on 2024-11-03 there, one step back is 23:30 on 2024-11-02,
  that is 03:30 UTC on 2024-11-03, 25 hours earlier: the walk visits the streak-days
  2024-11-04, 2024-11-02 and 2024-11-01 and never 2024-11-03, and the streak is 3 over a
  day without completions.
\<close>

lemma calculateStreak_clock_change:
  "\<not> fixed_offset zone_New_York"
  "setDate_minus zone_New_York 1730694600000 1 = 1730694600000 - 25 * 60 * 60 * 1000"
  "get_or_0 (completionsByDay zone_New_York DEFAULT_CONFIG clock_change_history ''kid''
     1730694600000) (getStreakDay DEFAULT_CONFIG 1730694600000 - 1) = 0"
  "calculateStreak zone_New_York DEFAULT_CONFIG clock_change_history ''kid'' 1730694600000
   = Some \<lparr>currentStreak = 3, streakAtRisk = False, completedToday = 1, requiredDaily = 1\<rparr>"
proof -
  let ?now = "1730694600000 :: int"
  let ?byDay = "[20031 \<mapsto> 1, 20029 \<mapsto> 1, 20028 \<mapsto> 1 :: int]"
  show "\<not> fixed_offset zone_New_York"
    by (simp add: fixed_offset_def zone_New_York_def)
  show step1: "setDate_minus zone_New_York ?now 1 = ?now - 25 * 60 * 60 * 1000"
    by (simp add: streak_eval)
  have step2: "setDate_minus zone_New_York 1730604600000 1 = 1730518200000"
    by (simp add: streak_eval)
  have step3: "setDate_minus zone_New_York 1730518200000 1 = 1730431800000"
    by (simp add: streak_eval)
  have byDay: "completionsByDay zone_New_York DEFAULT_CONFIG clock_change_history ''kid'' ?now
      = ?byDay"
    by (simp add: streak_eval DEFAULT_CONFIG_def clock_change_history_def)
  have days: "getStreakDay DEFAULT_CONFIG ?now = 20031"
    "getStreakDay DEFAULT_CONFIG 1730604600000 = 20029"
    "getStreakDay DEFAULT_CONFIG 1730518200000 = 20028"
    "getStreakDay DEFAULT_CONFIG 1730431800000 = 20027"
    by (simp_all add: streak_eval DEFAULT_CONFIG_def)
  have m: "minimumTasksPerDay DEFAULT_CONFIG = 1"
    by (simp add: DEFAULT_CONFIG_def)
  show "get_or_0 (completionsByDay zone_New_York DEFAULT_CONFIG clock_change_history ''kid''
     ?now) (getStreakDay DEFAULT_CONFIG ?now - 1) = 0"
    by (simp add: byDay days get_or_0_def)
  have "streak_loop zone_New_York DEFAULT_CONFIG ?byDay ?now ?now 0
      = streak_loop zone_New_York DEFAULT_CONFIG ?byDay ?now 1730604600000 (0 + 1)"
    using streak_loop_hit [where zone = zone_New_York and config = DEFAULT_CONFIG
        and byDay = ?byDay and now = ?now and checkDate = ?now and s = 0]
    by (simp add: step1 days m get_or_0_def)
  also have "\<dots> = streak_loop zone_New_York DEFAULT_CONFIG ?byDay ?now 1730518200000 (0 + 1 + 1)"
    using streak_loop_hit [where zone = zone_New_York and config = DEFAULT_CONFIG
        and byDay = ?byDay and now = ?now and checkDate = 1730604600000 and s = "0 + 1"]
    by (simp add: step2 days m get_or_0_def)
  also have "\<dots> = streak_loop zone_New_York DEFAULT_CONFIG ?byDay ?now 1730431800000
      (0 + 1 + 1 + 1)"
    using streak_loop_hit [where zone = zone_New_York and config = DEFAULT_CONFIG
        and byDay = ?byDay and now = ?now and checkDate = 1730518200000 and s = "0 + 1 + 1"]
    by (simp add: step3 days m get_or_0_def)
  also have "\<dots> = Some (0 + 1 + 1 + 1)"
    by (rule streak_loop_stop) (simp_all add: days m get_or_0_def)
  finally have loop: "streak_loop zone_New_York DEFAULT_CONFIG
      (completionsByDay zone_New_York DEFAULT_CONFIG clock_change_history ''kid'' ?now)
      ?now ?now 0 = Some 3"
    by (simp add: byDay)
  show "calculateStreak zone_New_York DEFAULT_CONFIG clock_change_history ''kid'' ?now
      = Some \<lparr>currentStreak = 3, streakAtRisk = False, completedToday = 1, requiredDaily = 1\<rparr>"
    using calculateStreak_Some [OF loop] by (simp add: byDay days m get_or_0_def)
qed

text \<open>The calendar date of an instant is the day that contains it.\<close>

lemma toISODate_iff:
  "day = toISODate t \<longleftrightarrow> day * 86400000 \<le> t \<and> t < (day + 1) * 86400000"
proof
  assume "day = toISODate t"
  then have d: "day = t div 86400000" by (simp add: toISODate_def MS_PER_DAY_def)
  have "t = 86400000 * (t div 86400000) + t mod 86400000" by simp
  moreover have "0 \<le> t mod 86400000" "t mod 86400000 < 86400000" by simp_all
  ultimately have "86400000 * (t div 86400000) \<le> t"
    and "t < 86400000 * (t div 86400000) + 86400000" by linarith+
  then show "day * 86400000 \<le> t \<and> t < (day + 1) * 86400000"
    unfolding d by (simp add: algebra_simps)
next
  assume h: "day * 86400000 \<le> t \<and> t < (day + 1) * 86400000"
  have "t div 86400000 = day"
    by (rule int_div_pos_eq [of t 86400000 day "t - day * 86400000"]) (use h in simp_all)
  then show "day = toISODate t" by (simp add: toISODate_def MS_PER_DAY_def)
qed

lemma getStreakDay_toISODate:
  "getStreakDay config t = toISODate (t - gracePeriodHours config * 3600000)"
  by (simp add: getStreakDay_def Let_def mult.commute)

text \<open>
  C5. \<open>getStreakDay t\<close> is the (UTC) calendar date of the instant \<open>t\<close> minus
  \<open>gracePeriodHours\<close> hours, that is the day that contains this instant. With a grace period
  of 4 hours, 01:30 on day \<open>D\<close> maps to day \<open>D - 1\<close> and 05:00 on day \<open>D\<close> maps to \<open>D\<close>.
\<close>

theorem getStreakDay_calendar_date:
  "getStreakDay config t = toISODate (t - gracePeriodHours config * 3600000)
   \<and> (day = getStreakDay config t \<longleftrightarrow>
        day * 86400000 \<le> t - gracePeriodHours config * 3600000
        \<and> t - gracePeriodHours config * 3600000 < (day + 1) * 86400000)
   \<and> (gracePeriodHours config = 4 \<longrightarrow>
        getStreakDay config (D * 86400000 + (1 * 60 + 30) * 60000) = D - 1
        \<and> getStreakDay config (D * 86400000 + (5 * 60 + 0) * 60000) = D)"
proof -
  have a: "D - 1 = getStreakDay config (D * 86400000 + (1 * 60 + 30) * 60000)"
    if "gracePeriodHours config = 4"
    unfolding getStreakDay_toISODate toISODate_iff using that by simp
  have b: "D = getStreakDay config (D * 86400000 + (5 * 60 + 0) * 60000)"
    if "gracePeriodHours config = 4"
    unfolding getStreakDay_toISODate toISODate_iff using that by simp
  have c: "day = getStreakDay config t \<longleftrightarrow>
        day * 86400000 \<le> t - gracePeriodHours config * 3600000
        \<and> t - gracePeriodHours config * 3600000 < (day + 1) * 86400000"
    unfolding getStreakDay_toISODate by (rule toISODate_iff)
  show ?thesis
  proof (intro conjI impI)
    show "getStreakDay config t = toISODate (t - gracePeriodHours config * 3600000)"
      by (rule getStreakDay_toISODate)
    show "day = getStreakDay config t \<longleftrightarrow>
        day * 86400000 \<le> t - gracePeriodHours config * 3600000
        \<and> t - gracePeriodHours config * 3600000 < (day + 1) * 86400000"
      by (rule c)
  next
    assume "gracePeriodHours config = 4"
    then show "getStreakDay config (D * 86400000 + (1 * 60 + 30) * 60000) = D - 1"
      using a by simp
  next
    assume "gracePeriodHours config = 4"
    then show "getStreakDay config (D * 86400000 + (5 * 60 + 0) * 60000) = D"
      using b by simp
  qed
qed

text \<open>01:30 and 05:00 on day 20000, with the default grace period.\<close>

theorem getStreakDay_calendar_date_witness:
  "gracePeriodHours DEFAULT_CONFIG = 4
   \<and> getStreakDay DEFAULT_CONFIG 1728005400000 = 19999
   \<and> getStreakDay DEFAULT_CONFIG 1728018000000 = 20000"
  using getStreakDay_calendar_date [of DEFAULT_CONFIG 0 0 20000]
  by (simp add: DEFAULT_CONFIG_def)

text \<open>
  The streak code reads \<open>gracePeriodHours\<close> and \<open>minimumTasksPerDay\<close> of its configuration
  and nothing else.
\<close>

lemma getStreakDay_cong:
  "gracePeriodHours c1 = gracePeriodHours c2 \<Longrightarrow> getStreakDay c1 t = getStreakDay c2 t"
  by (simp add: getStreakDay_def)

lemma completionsByDay_cong:
  assumes "gracePeriodHours c1 = gracePeriodHours c2"
  shows "completionsByDay zone c1 db child now = completionsByDay zone c2 db child now"
proof -
  have "group_by_streak_day c1 ts m = group_by_streak_day c2 ts m" for ts m
    by (induction ts arbitrary: m) (simp_all add: getStreakDay_cong [OF assms])
  then show ?thesis by (simp add: completionsByDay_def)
qed

lemma streak_loop_cong_Some:
  fixes zone :: process_zone
  assumes some: "streak_loop zone c1 byDay now checkDate s = Some y"
  shows "\<forall>c2. gracePeriodHours c1 = gracePeriodHours c2
            \<and> minimumTasksPerDay c1 = minimumTasksPerDay c2
          \<longrightarrow> streak_loop zone c2 byDay now checkDate s = Some y"
proof (rule streak_loop.raw_induct
    [where P = "\<lambda>zone config byDay now checkDate s y.
       \<forall>c2. gracePeriodHours config = gracePeriodHours c2
            \<and> minimumTasksPerDay config = minimumTasksPerDay c2
          \<longrightarrow> streak_loop zone c2 byDay now checkDate s = Some y", OF _ some])
  fix loop :: "process_zone \<Rightarrow> StreakConfig \<Rightarrow> (int \<rightharpoonup> int) \<Rightarrow> timestamp \<Rightarrow> timestamp \<Rightarrow> int
    \<Rightarrow> int option"
  fix zone config byDay now checkDate s y
  assume IH: "\<And>zone config byDay now checkDate s y.
     loop zone config byDay now checkDate s = Some y \<Longrightarrow>
     \<forall>c2. gracePeriodHours config = gracePeriodHours c2
            \<and> minimumTasksPerDay config = minimumTasksPerDay c2
          \<longrightarrow> streak_loop zone c2 byDay now checkDate s = Some y"
  assume body: "(let checkDay = getStreakDay config checkDate;
          tasksOnDay = get_or_0 byDay checkDay
      in if minimumTasksPerDay config \<le> tasksOnDay
         then loop zone config byDay now (setDate_minus zone checkDate 1) (s + 1)
         else if s = 0 \<and> isToday config now checkDay
              then loop zone config byDay now (setDate_minus zone checkDate 1) s
              else Some s) = Some y"
  show "\<forall>c2. gracePeriodHours config = gracePeriodHours c2
            \<and> minimumTasksPerDay config = minimumTasksPerDay c2
          \<longrightarrow> streak_loop zone c2 byDay now checkDate s = Some y"
  proof (intro allI impI)
    fix c2 :: StreakConfig
    assume eq: "gracePeriodHours config = gracePeriodHours c2
            \<and> minimumTasksPerDay config = minimumTasksPerDay c2"
    then have g: "getStreakDay config t = getStreakDay c2 t" for t
      by (intro getStreakDay_cong) simp
    show "streak_loop zone c2 byDay now checkDate s = Some y"
    proof (cases "minimumTasksPerDay config \<le> get_or_0 byDay (getStreakDay config checkDate)")
      case True
      then have "loop zone config byDay now (setDate_minus zone checkDate 1) (s + 1) = Some y"
        using body by (simp add: Let_def)
      from IH [OF this, rule_format, of c2]
      have "streak_loop zone c2 byDay now (setDate_minus zone checkDate 1) (s + 1) = Some y"
        using eq by simp
      moreover have "minimumTasksPerDay c2 \<le> get_or_0 byDay (getStreakDay c2 checkDate)"
        using True eq g by simp
      ultimately show ?thesis
        using streak_loop_hit [where config = c2 and byDay = byDay and checkDate = checkDate
            and now = now and s = s and zone = zone] by simp
    next
      case False
      then have below: "get_or_0 byDay (getStreakDay c2 checkDate) < minimumTasksPerDay c2"
        using eq g by simp
      show ?thesis
      proof (cases "s = 0 \<and> getStreakDay config checkDate = getStreakDay config now")
        case True
        then have "loop zone config byDay now (setDate_minus zone checkDate 1) s = Some y"
          using body False by (simp add: Let_def isToday_def)
        from IH [OF this, rule_format, of c2]
        have "streak_loop zone c2 byDay now (setDate_minus zone checkDate 1) s = Some y"
          using eq by simp
        moreover have "s = 0" "getStreakDay c2 checkDate = getStreakDay c2 now"
          using True g by simp_all
        ultimately show ?thesis
          using below streak_loop_skip [where config = c2 and byDay = byDay
              and checkDate = checkDate and now = now and s = s and zone = zone] by simp
      next
        case stop: False
        then have "y = s"
          using body False by (auto simp add: Let_def isToday_def)
        moreover have "s \<noteq> 0 \<or> getStreakDay c2 checkDate \<noteq> getStreakDay c2 now"
          using stop g by auto
        ultimately show ?thesis
          using below streak_loop_stop [where config = c2 and byDay = byDay
              and checkDate = checkDate and now = now and s = s and zone = zone] by simp
      qed
    qed
  qed
qed

lemma streak_loop_cong:
  assumes "gracePeriodHours c1 = gracePeriodHours c2"
    and "minimumTasksPerDay c1 = minimumTasksPerDay c2"
  shows "streak_loop zone c1 byDay now checkDate s = streak_loop zone c2 byDay now checkDate s"
proof (cases "streak_loop zone c1 byDay now checkDate s")
  case None
  show ?thesis
  proof (cases "streak_loop zone c2 byDay now checkDate s")
    case None2: None
    then show ?thesis using None by simp
  next
    case (Some y)
    then have "streak_loop zone c1 byDay now checkDate s = Some y"
      using streak_loop_cong_Some [of zone c2 byDay now checkDate s y] assms by simp
    then show ?thesis using None by simp
  qed
next
  case (Some y)
  then show ?thesis
    using streak_loop_cong_Some [of zone c1 byDay now checkDate s y] assms by simp
qed

text \<open>
  C10. Two configurations that differ only in \<open>timezoneOffset\<close> give the same streak-day
  for every timestamp and, in every process zone, the same result of \<open>calculateStreak\<close>
  on every history, also where the loop does not end.
\<close>

theorem timezoneOffset_is_ignored:
  assumes "gracePeriodHours c1 = gracePeriodHours c2"
    and "minimumTasksPerDay c1 = minimumTasksPerDay c2"
  shows "getStreakDay c1 t = getStreakDay c2 t
       \<and> calculateStreak zone c1 db childId now
           = calculateStreak zone c2 db childId now"
proof -
  have "calculateStreak zone c1 db childId now
      = calculateStreak zone c2 db childId now"
    unfolding calculateStreak_def completionsByDay_cong [OF assms(1)] streak_loop_cong [OF assms]
      getStreakDay_cong [OF assms(1)] assms(2) ..
  then show ?thesis
    using getStreakDay_cong [OF assms(1)] by simp
qed

theorem timezoneOffset_is_ignored_witness:
  "gracePeriodHours DEFAULT_CONFIG = gracePeriodHours (DEFAULT_CONFIG\<lparr>timezoneOffset := - 480\<rparr>)
   \<and> minimumTasksPerDay DEFAULT_CONFIG = minimumTasksPerDay (DEFAULT_CONFIG\<lparr>timezoneOffset := - 480\<rparr>)
   \<and> timezoneOffset DEFAULT_CONFIG \<noteq> timezoneOffset (DEFAULT_CONFIG\<lparr>timezoneOffset := - 480\<rparr>)
   \<and> getStreakDay DEFAULT_CONFIG 1728005400000
       = getStreakDay (DEFAULT_CONFIG\<lparr>timezoneOffset := - 480\<rparr>) 1728005400000
   \<and> calculateStreak zone_UTC DEFAULT_CONFIG three_day_history ''kid'' 1728064800000
       = calculateStreak zone_UTC (DEFAULT_CONFIG\<lparr>timezoneOffset := - 480\<rparr>) three_day_history
           ''kid'' 1728064800000"
  using timezoneOffset_is_ignored
    [where ?c1.0 = DEFAULT_CONFIG and ?c2.0 = "DEFAULT_CONFIG\<lparr>timezoneOffset := - 480\<rparr>"
      and t = 1728005400000 and zone = zone_UTC and db = three_day_history
      and childId = "''kid''" and now = 1728064800000]
  by (simp add: DEFAULT_CONFIG_def)

subsection \<open>Leaderboard\<close>

lemma map_assign_ranks:
  "map score (assign_ranks es) = map score es"
  "map le_childId (assign_ranks es) = map le_childId es"
  "map weeklyPoints (assign_ranks es) = map weeklyPoints es"
  "map weeklyTasks (assign_ranks es) = map weeklyTasks es"
  "map le_currentStreak (assign_ranks es) = map le_currentStreak es"
  "map le_achievements (assign_ranks es) = map le_achievements es"
  by (simp_all add: assign_ranks_def list_eq_iff_nth_eq nth_enumerate_eq)

lemma rank_assign_ranks: "map rank (assign_ranks es) = [1..int (length es)]"
proof (rule nth_equalityI)
  show "length (map rank (assign_ranks es)) = length [1..int (length es)]"
    by (simp add: assign_ranks_def)
next
  fix i assume "i < length (map rank (assign_ranks es))"
  then have i: "i < length es" by (simp add: assign_ranks_def)
  then show "map rank (assign_ranks es) ! i = [1..int (length es)] ! i"
    by (simp add: assign_ranks_def nth_enumerate_eq)
qed

lemma sorted_sort_by_score_desc:
  "sorted_wrt (\<lambda>a b. score a \<ge> score b) (sort_by_score_desc es)"
proof -
  have "sorted (map (\<lambda>e. - score e) (sort_by_score_desc es))"
    unfolding sort_by_score_desc_def by (rule sorted_sort_key)
  then show ?thesis
    by (simp add: sorted_wrt_map)
qed

lemma mset_sort_by_score_desc: "mset (sort_by_score_desc es) = mset es"
  by (simp add: sort_by_score_desc_def)

lemma default_score:
  "score (leaderboard_entry DEFAULT_WEIGHTS db dateRange child) =
     earned_points_in_range db (u_id child) dateRange * 1
     + approved_tasks_in_range db (u_id child) dateRange * 5
     + profile_streak db (u_id child) * 2
     + achievement_count db (u_id child) * 10"
proof -
  let ?n = "earned_points_in_range db (u_id child) dateRange * 1
     + approved_tasks_in_range db (u_id child) dateRange * 5
     + profile_streak db (u_id child) * 2
     + achievement_count db (u_id child) * 10"
  have "score (leaderboard_entry DEFAULT_WEIGHTS db dateRange child) = Math_round (real_of_int ?n)"
    by (simp add: leaderboard_entry_def Let_def calculateScore_def DEFAULT_WEIGHTS_def)
  then show ?thesis by (simp only: Math_round_of_int)
qed

lemma rank_leaderboard_entry: "rank (leaderboard_entry weights db dateRange child) = 0"
  by (simp add: leaderboard_entry_def Let_def)

lemma leaderboard_entry_fields:
  "le_childId (leaderboard_entry weights db dateRange child) = u_id child"
  "weeklyPoints (leaderboard_entry weights db dateRange child)
     = earned_points_in_range db (u_id child) dateRange"
  "weeklyTasks (leaderboard_entry weights db dateRange child)
     = approved_tasks_in_range db (u_id child) dateRange"
  "le_currentStreak (leaderboard_entry weights db dateRange child) = profile_streak db (u_id child)"
  "le_achievements (leaderboard_entry weights db dateRange child)
     = achievement_count db (u_id child)"
  by (simp_all add: leaderboard_entry_def Let_def)

lemma default_score_composite:
  "score (leaderboard_entry DEFAULT_WEIGHTS db dateRange child) =
     weeklyPoints (leaderboard_entry DEFAULT_WEIGHTS db dateRange child) * 1
     + weeklyTasks (leaderboard_entry DEFAULT_WEIGHTS db dateRange child) * 5
     + le_currentStreak (leaderboard_entry DEFAULT_WEIGHTS db dateRange child) * 2
     + le_achievements (leaderboard_entry DEFAULT_WEIGHTS db dateRange child) * 10"
  by (simp only: default_score leaderboard_entry_fields)

lemma reset_rank_assign_ranks:
  "map (\<lambda>e. e\<lparr>rank := 0\<rparr>) (assign_ranks es) = map (\<lambda>e. e\<lparr>rank := 0\<rparr>) es"
  by (simp add: assign_ranks_def list_eq_iff_nth_eq nth_enumerate_eq)

lemma length_assign_ranks: "length (assign_ranks es) = length es"
  by (simp add: assign_ranks_def)

lemma length_sort_by_score_desc: "length (sort_by_score_desc es) = length es"
  by (simp add: sort_by_score_desc_def)

lemma sorted_assign_ranks:
  assumes "sorted_wrt (\<lambda>a b. score a \<ge> score b) es"
  shows "sorted_wrt (\<lambda>a b. score a \<ge> score b) (assign_ranks es)"
proof -
  have "sorted_wrt (\<lambda>x y. x \<ge> y) (map score es)"
    using assms by (simp add: sorted_wrt_map)
  then have "sorted_wrt (\<lambda>x y. x \<ge> y) (map score (assign_ranks es))"
    by (simp only: map_assign_ranks)
  then show ?thesis by (simp add: sorted_wrt_map)
qed

text \<open>
  C8. With the default weights, the leaderboard of a family has one entry for each of its
  active children, carrying the child's statistics of the period; every entry's score is
  \<open>weeklyPoints * 1 + weeklyTasks * 5 + currentStreak * 2 + achievements * 10\<close>; the
  scores are non-increasing along the list; and the ranks are \<open>1, \<dots>, n\<close> in this order.
\<close>

theorem getFamilyLeaderboard_ranking:
  "(let children = filter
          (\<lambda>u. u_family_id u = familyId \<and> u_role u = ''child'' \<and> is_active u) (users db);
        board = getFamilyLeaderboard DEFAULT_WEIGHTS db familyId dateRange
    in mset (map (\<lambda>e. e\<lparr>rank := 0\<rparr>) board)
         = mset (map (leaderboard_entry DEFAULT_WEIGHTS db dateRange) children)
     \<and> map score board
         = map (\<lambda>e. weeklyPoints e * 1 + weeklyTasks e * 5 + le_currentStreak e * 2
                   + le_achievements e * 10) board
     \<and> sorted_wrt (\<lambda>a b. score a \<ge> score b) board
     \<and> map rank board = [1..int (length board)]
     \<and> length board = length children)"
proof -
  let ?children = "filter
          (\<lambda>u. u_family_id u = familyId \<and> u_role u = ''child'' \<and> is_active u) (users db)"
  let ?entries = "map (leaderboard_entry DEFAULT_WEIGHTS db dateRange) ?children"
  let ?board = "assign_ranks (sort_by_score_desc ?entries)"
  let ?composite = "\<lambda>e. weeklyPoints e * 1 + weeklyTasks e * 5 + le_currentStreak e * 2
                   + le_achievements e * 10"
  have board: "getFamilyLeaderboard DEFAULT_WEIGHTS db familyId dateRange = ?board"
    by (simp add: getFamilyLeaderboard_def Let_def)
  have "e\<lparr>rank := 0\<rparr> = e" if "rank e = 0" for e :: LeaderboardEntry
    using that by simp
  then have e1: "map (\<lambda>e. e\<lparr>rank := 0\<rparr>) ?entries = ?entries"
    by (simp add: rank_leaderboard_entry)
  have "mset (map (\<lambda>e. e\<lparr>rank := 0\<rparr>) (sort_by_score_desc ?entries))
      = image_mset (\<lambda>e. e\<lparr>rank := 0\<rparr>) (mset (sort_by_score_desc ?entries))"
    by (rule mset_map)
  also have "\<dots> = image_mset (\<lambda>e. e\<lparr>rank := 0\<rparr>) (mset ?entries)"
    by (simp only: mset_sort_by_score_desc)
  also have "\<dots> = mset (map (\<lambda>e. e\<lparr>rank := 0\<rparr>) ?entries)"
    by (rule mset_map [symmetric])
  also have "\<dots> = mset ?entries"
    by (simp only: e1)
  finally have a: "mset (map (\<lambda>e. e\<lparr>rank := 0\<rparr>) ?board) = mset ?entries"
    by (simp only: reset_rank_assign_ranks)
  have "score e = ?composite e" if "e \<in> set ?entries" for e
  proof -
    from that obtain child where "e = leaderboard_entry DEFAULT_WEIGHTS db dateRange child"
      by auto
    then show ?thesis by (simp only: default_score_composite)
  qed
  moreover have "set (sort_by_score_desc ?entries) = set ?entries"
    by (simp add: sort_by_score_desc_def)
  ultimately
  have "map score (sort_by_score_desc ?entries) = map ?composite (sort_by_score_desc ?entries)"
    by (intro map_cong refl) simp
  moreover have "map ?composite ?board = map ?composite (sort_by_score_desc ?entries)"
    by (simp add: assign_ranks_def list_eq_iff_nth_eq nth_enumerate_eq)
  ultimately have b: "map score ?board = map ?composite ?board"
    by (simp only: map_assign_ranks)
  have c: "sorted_wrt (\<lambda>a b. score a \<ge> score b) ?board"
    by (intro sorted_assign_ranks sorted_sort_by_score_desc)
  have d: "map rank ?board = [1..int (length ?board)]"
    by (simp only: rank_assign_ranks length_assign_ranks)
  have e: "length ?board = length ?children"
    by (simp add: length_assign_ranks length_sort_by_score_desc)
  show ?thesis
    unfolding Let_def board using a b c d e by blast
qed

lemmas leaderboard_eval =
  getFamilyLeaderboard_def leaderboard_entry_def earned_points_in_range_def
  approved_tasks_in_range_def profile_streak_def achievement_count_def calculateScore_def
  DEFAULT_WEIGHTS_def sort_by_score_desc_def assign_ranks_def family_db_def approved_row_def
  Let_def enumerate_eq_zip

text \<open>Bob scores 50, Ann \<open>20 + 5 + 6 + 10 = 41\<close>.\<close>

lemma family_board:
  "map (\<lambda>e. (le_childId e, score e))
       (getFamilyLeaderboard DEFAULT_WEIGHTS family_db ''f1'' (0, 1000))
     = [(''bob'', 50), (''ann'', 41)]"
proof -
  have r: "Math_round 41 = 41" "Math_round 50 = 50"
    using Math_round_of_int [of 41] Math_round_of_int [of 50] by simp_all
  show ?thesis
    by (simp add: leaderboard_eval r)
qed

theorem getFamilyLeaderboard_ranking_witness:
  "map (\<lambda>e. (le_childId e, score e, rank e))
       (getFamilyLeaderboard DEFAULT_WEIGHTS family_db ''f1'' (0, 1000))
     = [(''bob'', 50, 1), (''ann'', 41, 2)]"
proof -
  let ?board = "getFamilyLeaderboard DEFAULT_WEIGHTS family_db ''f1'' (0, 1000)"
  note t = getFamilyLeaderboard_ranking [of "''f1''" family_db "(0, 1000)", unfolded Let_def]
  have len: "length ?board = 2"
    using family_board [THEN arg_cong, of length] by simp
  have "map rank ?board = [1..int (length ?board)]"
    using t by blast
  then have ranks: "map rank ?board = [1, 2]"
    by (simp add: len upto_rec1)
  show ?thesis
    using family_board ranks len
    by (auto simp: list_eq_iff_nth_eq nth_Cons' less_Suc_eq numeral_2_eq_2 split: if_splits dest!: spec)
qed

subsection \<open>Achievements\<close>

lemma checkUnlockCriteria_table:
  "unlock_criteria_type a = ''streak_days'' \<Longrightarrow>
     checkUnlockCriteria db (Some c) a ev = Inr (current_streak_days c \<ge> unlock_criteria_value a)"
  "unlock_criteria_type a = ''tasks_completed'' \<Longrightarrow>
     checkUnlockCriteria db (Some c) a ev = Inr (total_tasks_completed c \<ge> unlock_criteria_value a)"
  "unlock_criteria_type a = ''points_earned'' \<Longrightarrow>
     checkUnlockCriteria db (Some c) a ev = Inr (total_points_earned c \<ge> unlock_criteria_value a)"
  "unlock_criteria_type a = ''category_master'' \<Longrightarrow> unlock_criteria_config a = Some cfg \<Longrightarrow>
     checkUnlockCriteria db (Some c) a ev
       = Inr ((case category cfg of None \<Rightarrow> 0
               | Some cat \<Rightarrow> category_count db (cp_user_id c) cat) \<ge> unlock_criteria_value a)"
  by (simp_all add: checkUnlockCriteria_def)

lemma checkUnlockCriteria_time_based:
  "unlock_criteria_type a = ''time_based'' \<Longrightarrow> checkUnlockCriteria db child a ev = Inr False"
  by (simp add: checkUnlockCriteria_def)





lemma accepted_entry_balance:
  assumes "insert_points_ledger points_ledger NEW = Inr l" and "0 < points_amount NEW"
  shows "balance_after NEW
    \<noteq> calculated_balance points_ledger (pl_child_id NEW) + points_amount NEW"
  using assms
  by (simp add: insert_points_ledger_def validate_points_balance_def split: if_splits)

lemma awardPoints_zero:
  "awardPoints db c 0 ref t =
     Inr (db\<lparr>pointsLedger := pointsLedger db @
       [\<lparr>pl_child_id = c, pl_transaction_type = bonus, points_amount = 0,
         balance_after = calculated_balance (pointsLedger db) c,
         pl_reference_type = ref, pl_created_at = t\<rparr>]\<rparr>)"
  by (simp add: awardPoints_def insert_points_ledger_def validate_points_balance_def)



text \<open>
  C6. The claim: a \<^verbatim>\<open>time_based\<close> achievement unlocks if and only if the count of
  completions before the cutoff time is at least the value. The \<^verbatim>\<open>switch\<close> has no case
  for \<^verbatim>\<open>time_based\<close>, so the catalog's "Early Bird" (10 tasks before 08:00) falls to
  \<^verbatim>\<open>default\<close> and is refused for a child with 10 completions at 07:00. The four other
  criteria are as the table has them (\<open>checkUnlockCriteria_table\<close>).
\<close>

theorem Early_Bird_is_never_unlocked:
  "spec_completions_before early_bird_db ''kid'' (8 * 60) = 10
   \<and> unlock_criteria_type Early_Bird = ''time_based''
   \<and> unlock_criteria_value Early_Bird = 10
   \<and> checkUnlockCriteria early_bird_db (Some kid_profile) Early_Bird
        \<lparr>ev_type = ''task_approved'', taskCategory = ''cleaning''\<rparr> = Inr False"
  by (simp add: spec_completions_before_def early_bird_db_def approved_row_def MS_PER_DAY_def
      Early_Bird_def checkUnlockCriteria_def)



end
